theory Spec2Isabelle
  imports Main "HOL-Library.AList"
begin

section \<open>The environment: timers and the metrics API\<close>

text \<open>
  The program is TypeScript on a single-threaded event loop. Two things lie outside
  the repository and are written out here as an explicit \<open>world\<close> that every
  operation takes and returns:
  \<^item> the timer table of the host (\<open>setInterval\<close>, \<open>clearInterval\<close>): the ids of the
    intervals that are scheduled, and the id the next \<open>setInterval\<close> hands out;
  \<^item> the metrics API (\<open>@opentelemetry/api\<close>): the log of the calls it has received,
    oldest first. What it answers is a parameter of the operations that call it
    (\<open>backend\<close> below), a function of everything it has been asked so far.

  The wall clock is an input too: every operation that reads \<open>new Date().getTime()\<close>
  takes the reading, in milliseconds, as its first argument \<open>now\<close>.
\<close>

type_synonym handle = nat
type_synonym Meter = nat
type_synonym Attributes = "(string \<times> string) list"

datatype ValueType = ValueType_INT | ValueType_DOUBLE

record MetricOptions =
  description :: string
  valueType :: ValueType

datatype call =
    GetMeter string string
  | CreateCounter Meter string "MetricOptions option"
  | CreateObservableCounter Meter string "MetricOptions option"
  | Add handle int "Attributes option"
  | AddCallback handle nat

text \<open>
  \<open>AddCallback h i\<close> is \<open>h.addCallback(cb)\<close> for the closure \<open>cb\<close> that reads the
  QpsCounter whose interval id is \<open>i\<close> (the id identifies the object the closure
  captured). A \<open>backend\<close> answers the last call of a log: a handle or a meter, or
  nothing (\<open>undefined\<close>).
\<close>

type_synonym backend = "call list \<Rightarrow> nat option"

record world =
  calls :: "call list"
  intervals :: "nat list"
  nextInterval :: nat

definition setInterval :: "world \<Rightarrow> nat \<times> world" where
  "setInterval w =
     (nextInterval w,
      w\<lparr>intervals := nextInterval w # intervals w, nextInterval := Suc (nextInterval w)\<rparr>)"

definition clearInterval :: "nat \<Rightarrow> world \<Rightarrow> world" where
  "clearInterval i w = w\<lparr>intervals := removeAll i (intervals w)\<rparr>"

definition ask :: "backend \<Rightarrow> call \<Rightarrow> world \<Rightarrow> nat option \<times> world" where
  "ask B c w = (B (calls w @ [c]), w\<lparr>calls := calls w @ [c]\<rparr>)"

section \<open>QpsCounter (qps-counter.ts)\<close>

text \<open>
  \<open>counter\<close> is the object \<open>{[key: string]: number}\<close>; its keys are the decimal
  strings of integer seconds, so the model keys it by the integer. It is an
  association list because the sweep enumerates \<open>Object.keys\<close>. The counts are
  JavaScript numbers that only ever hold integers; the model uses \<open>int\<close> (a count
  never comes near \<open>2^53\<close>, where a double stops counting).
\<close>

record QpsCounter =
  counter :: "(int \<times> int) list"
  intervalId :: nat

text \<open>\<open>Math.floor(new Date().getTime() / 1000)\<close>; \<open>div\<close> on \<open>int\<close> rounds down.\<close>

definition currentSecond :: "int \<Rightarrow> int" where
  "currentSecond now = now div 1000"

text \<open>
  The body of the arrow function the constructor hands to \<open>setInterval\<close>:
  for every key of a snapshot of the keys, delete it if \<open>Number(key) < cs - 5\<close>.
\<close>

definition sweep :: "int \<Rightarrow> QpsCounter \<Rightarrow> QpsCounter" where
  "sweep now q =
     (let cs = currentSecond now
      in q\<lparr>counter :=
             fold (\<lambda>key c. if key < cs - 5 then AList.delete key c else c)
                  (map fst (counter q)) (counter q)\<rparr>)"

text \<open>The constructor: an empty \<open>counter\<close>, and the interval that runs the sweep.\<close>

definition QpsCounter_new :: "world \<Rightarrow> QpsCounter \<times> world" where
  "QpsCounter_new w =
     (let (i, w') = setInterval w in (\<lparr>counter = [], intervalId = i\<rparr>, w'))"

definition stop :: "QpsCounter \<Rightarrow> world \<Rightarrow> world" where
  "stop q w = clearInterval (intervalId q) w"

text \<open>
  \<open>if (this.counter[cs])\<close> is JavaScript truthiness: the branch is taken when the
  key is present and its number is not \<open>0\<close>.
\<close>

definition getQps :: "int \<Rightarrow> QpsCounter \<Rightarrow> int" where
  "getQps now q =
     (let cs = currentSecond now - 1
      in case map_of (counter q) cs of
           None \<Rightarrow> 0
         | Some n \<Rightarrow> if n \<noteq> 0 then n else 0)"

definition increment :: "int \<Rightarrow> QpsCounter \<Rightarrow> QpsCounter" where
  "increment now q =
     (let cs = currentSecond now
      in case map_of (counter q) cs of
           None \<Rightarrow> q\<lparr>counter := AList.update cs 1 (counter q)\<rparr>
         | Some n \<Rightarrow>
             if n = 0 then q\<lparr>counter := AList.update cs 1 (counter q)\<rparr>
             else q\<lparr>counter := AList.update cs (n + 1) (counter q)\<rparr>)"

text \<open>
  What can happen to a QpsCounter: its methods are called, and the host runs the
  interval's callback while the interval is scheduled. \<open>Tick\<close> is the host calling
  the callback; the host decides when (about every 1000 ms, later under load).
\<close>

datatype qps_event = Increment int | GetQps int | Tick int | Stop

fun qps_step :: "qps_event \<Rightarrow> QpsCounter \<times> world \<Rightarrow> QpsCounter \<times> world" where
  "qps_step (Increment now) (q, w) = (increment now q, w)"
| "qps_step (GetQps now) (q, w) = (q, w)"
| "qps_step (Tick now) (q, w) =
     (if intervalId q \<in> set (intervals w) then (sweep now q, w) else (q, w))"
| "qps_step Stop (q, w) = (q, stop q w)"

definition qps_run :: "qps_event list \<Rightarrow> QpsCounter \<times> world \<Rightarrow> QpsCounter \<times> world" where
  "qps_run evs s = fold qps_step evs s"

text \<open>The count a bucket holds, \<open>0\<close> for a second that has no bucket.\<close>

definition bucket :: "QpsCounter \<Rightarrow> int \<Rightarrow> int" where
  "bucket q k = (case map_of (counter q) k of None \<Rightarrow> 0 | Some n \<Rightarrow> n)"

text \<open>
  The number of \<open>increment()\<close> calls of a run that were made while the clock showed
  second \<open>s\<close>, and the test for an \<open>increment()\<close> call.
\<close>

definition incs_in :: "int \<Rightarrow> qps_event list \<Rightarrow> nat" where
  "incs_in s evs =
     length (filter (\<lambda>e. case e of Increment t \<Rightarrow> currentSecond t = s | _ \<Rightarrow> False) evs)"

fun is_Increment :: "qps_event \<Rightarrow> bool" where
  "is_Increment (Increment t) = True"
| "is_Increment _ = False"

text \<open>
  The clock reading an event carries (\<open>stop()\<close> reads no clock), and the events
  that happen while the clock shows second \<open>s\<close>.
\<close>

fun reading :: "qps_event \<Rightarrow> int option" where
  "reading (Increment t) = Some t"
| "reading (GetQps t) = Some t"
| "reading (Tick t) = Some t"
| "reading Stop = None"

definition during :: "int \<Rightarrow> qps_event \<Rightarrow> bool" where
  "during s e = (case reading e of None \<Rightarrow> True | Some t \<Rightarrow> currentSecond t = s)"


text \<open>The world when the program starts: nothing called yet, no interval set.\<close>

definition world0 :: world where
  "world0 = \<lparr>calls = [], intervals = [], nextInterval = 0\<rparr>"

section \<open>MeterCollector (meter-collector.ts)\<close>

text \<open>
  \<open>meter_cache\<close> is the object \<open>{[meterName: string]: Counter | ObservableCounter | ...}\<close>,
  an association list from cache key to handle. A handle is an object of the metrics
  API; the model knows it by a number, and two handles are the identical object when
  the numbers are equal. The keys \<open>getCounter\<close> and \<open>getObservableCounter\<close> build
  contain a \<open>-\<close>, so they never name a property the object inherits.
\<close>

type_synonym MeterCache = "(string \<times> handle) list"

record MeterCollectorOptions =
  name :: "string option"
  version :: "string option"

record MeterCollector =
  meter :: "Meter option"
  meter_cache :: "MeterCache option"

text \<open>\<open>v || d\<close> on an optional string: \<open>undefined\<close> and the empty string are falsy.\<close>

definition orDefault :: "string option \<Rightarrow> string \<Rightarrow> string" where
  "orDefault v d = (case v of None \<Rightarrow> d | Some s \<Rightarrow> if s = [] then d else s)"

text \<open>
  The constructor's body, run on the object being constructed (a subclass instance
  has its own fields beside the two of the base class):
  \<open>this.meter = metrics.getMeter(options?.name || "dubbo-js", options?.version || "0.0.1", options)\<close>
  and \<open>this.meter_cache = {}\<close>.
\<close>

definition MeterCollector_init ::
  "backend \<Rightarrow> MeterCollectorOptions option \<Rightarrow> 'a MeterCollector_scheme \<Rightarrow> world
     \<Rightarrow> 'a MeterCollector_scheme \<times> world" where
  "MeterCollector_init B options c w =
     (let nm = orDefault (case options of None \<Rightarrow> None | Some opts \<Rightarrow> name opts) ''dubbo-js'';
          ver = orDefault (case options of None \<Rightarrow> None | Some opts \<Rightarrow> version opts) ''0.0.1'';
          (m, w') = ask B (GetMeter nm ver) w
      in (c\<lparr>meter := m, meter_cache := Some []\<rparr>, w'))"

definition MeterCollector_new ::
  "backend \<Rightarrow> MeterCollectorOptions option \<Rightarrow> world \<Rightarrow> MeterCollector \<times> world" where
  "MeterCollector_new B options w =
     MeterCollector_init B options \<lparr>meter = None, meter_cache = None\<rparr> w"

text \<open>\<open>this.meter_cache[cacheKey]\<close>.\<close>

definition cached :: "'a MeterCollector_scheme \<Rightarrow> string \<Rightarrow> handle option" where
  "cached c cacheKey =
     (case meter_cache c of None \<Rightarrow> None | Some cache \<Rightarrow> map_of cache cacheKey)"

text \<open>
  \<open>__getCachedMeter(cacheKey, creator)\<close>. The creator is the closure the caller
  passes; it may call the metrics API, so it takes and returns the world. A handle
  is an object and always truthy, so \<open>if (meter)\<close> asks whether the creator
  returned one.
\<close>

definition getCachedMeter ::
  "string \<Rightarrow> (world \<Rightarrow> handle option \<times> world) \<Rightarrow> 'a MeterCollector_scheme \<Rightarrow> world
     \<Rightarrow> handle option \<times> 'a MeterCollector_scheme \<times> world" where
  "getCachedMeter cacheKey creator c w =
     (case meter c of
        None \<Rightarrow> (None, c, w)
      | Some m \<Rightarrow>
          (case meter_cache c of
             None \<Rightarrow> (None, c, w)
           | Some cache \<Rightarrow>
               (case map_of cache cacheKey of
                  None \<Rightarrow>
                    (case creator w of
                       (Some h, w') \<Rightarrow>
                         (let c' = c\<lparr>meter_cache := Some (AList.update cacheKey h cache)\<rparr>
                          in (cached c' cacheKey, c', w'))
                     | (None, w') \<Rightarrow> (None, c, w'))
                | Some h \<Rightarrow> (cached c cacheKey, c, w))))"

text \<open>
  The two creators: \<open>() => this.meter?.createCounter(name, options)\<close> and
  \<open>() => this.meter?.createObservableCounter(name, options)\<close>.
\<close>

definition createCounter ::
  "backend \<Rightarrow> 'a MeterCollector_scheme \<Rightarrow> string \<Rightarrow> MetricOptions option \<Rightarrow> world
     \<Rightarrow> handle option \<times> world" where
  "createCounter B c nm options w =
     (case meter c of None \<Rightarrow> (None, w) | Some m \<Rightarrow> ask B (CreateCounter m nm options) w)"

definition createObservableCounter ::
  "backend \<Rightarrow> 'a MeterCollector_scheme \<Rightarrow> string \<Rightarrow> MetricOptions option \<Rightarrow> world
     \<Rightarrow> handle option \<times> world" where
  "createObservableCounter B c nm options w =
     (case meter c of
        None \<Rightarrow> (None, w)
      | Some m \<Rightarrow> ask B (CreateObservableCounter m nm options) w)"

definition getCounter ::
  "backend \<Rightarrow> string \<Rightarrow> MetricOptions option \<Rightarrow> 'a MeterCollector_scheme \<Rightarrow> world
     \<Rightarrow> handle option \<times> 'a MeterCollector_scheme \<times> world" where
  "getCounter B nm options c w =
     (let cacheKey = ''counter-'' @ nm
      in getCachedMeter cacheKey (createCounter B c nm options) c w)"

definition getObservableCounter ::
  "backend \<Rightarrow> string \<Rightarrow> MetricOptions option \<Rightarrow> 'a MeterCollector_scheme \<Rightarrow> world
     \<Rightarrow> handle option \<times> 'a MeterCollector_scheme \<times> world" where
  "getObservableCounter B nm options c w =
     (let cacheKey = ''observable-counter-'' @ nm
      in getCachedMeter cacheKey (createObservableCounter B c nm options) c w)"

text \<open>
  \<open>shutdown()\<close> of the base class: for every key of a snapshot of the keys, delete
  it (the inner \<open>if (this.meter_cache)\<close> included).
\<close>

definition shutdown :: "'a MeterCollector_scheme \<Rightarrow> 'a MeterCollector_scheme" where
  "shutdown c =
     (case meter_cache c of
        None \<Rightarrow> c
      | Some cache \<Rightarrow>
          fold (\<lambda>key c'. case meter_cache c' of
                            None \<Rightarrow> c'
                          | Some cache' \<Rightarrow> c'\<lparr>meter_cache := Some (AList.delete key cache')\<rparr>)
               (map fst cache) c)"

text \<open>How often the metrics API was asked to create the handle of a cache key.\<close>

fun creates :: "string \<Rightarrow> call \<Rightarrow> bool" where
  "creates k (CreateCounter m nm options) = (k = ''counter-'' @ nm)"
| "creates k (CreateObservableCounter m nm options) = (k = ''observable-counter-'' @ nm)"
| "creates k _ = False"

definition createCalls :: "string \<Rightarrow> world \<Rightarrow> nat" where
  "createCalls k w = length (filter (creates k) (calls w))"

text \<open>
  What can happen to a collector of the base class: its three public methods.
\<close>

datatype collector_event =
    GetCounter string "MetricOptions option"
  | GetObservableCounter string "MetricOptions option"
  | Shutdown

fun collector_step ::
  "backend \<Rightarrow> collector_event \<Rightarrow> 'a MeterCollector_scheme \<times> world
     \<Rightarrow> 'a MeterCollector_scheme \<times> world" where
  "collector_step B (GetCounter nm options) (c, w) = snd (getCounter B nm options c w)"
| "collector_step B (GetObservableCounter nm options) (c, w) =
     snd (getObservableCounter B nm options c w)"
| "collector_step B Shutdown (c, w) = (shutdown c, w)"

definition collector_run ::
  "backend \<Rightarrow> collector_event list \<Rightarrow> 'a MeterCollector_scheme \<times> world
     \<Rightarrow> 'a MeterCollector_scheme \<times> world" where
  "collector_run B evs s = fold (collector_step B) evs s"

text \<open>
  Three metrics APIs for the concrete runs below: one that hands out nothing, not
  even a meter; one that answers every call with a new object; and one that binds
  meter 0, fails the first creation it is asked for and answers every later one
  with a new object.
\<close>

definition backend_none :: backend where
  "backend_none log = None"

definition backend_fresh :: backend where
  "backend_fresh log = Some (length log)"

definition backend_flaky :: backend where
  "backend_flaky log =
     (case rev log of
        [] \<Rightarrow> None
      | GetMeter nm ver # earlier \<Rightarrow> Some 0
      | c # earlier \<Rightarrow> if length log < 3 then None else Some (length log))"

text \<open>
  A call to the metrics API can also raise. No method of the collectors has a
  \<open>try\<close>, so an exception raised inside a getter leaves the getter at once and
  reaches its caller. The definitions above take a metrics API whose calls
  return. Here the getters are written out once more over a metrics API whose
  creation calls either return or raise: \<open>Raised\<close> is the method left by the
  exception, with the object and the world as they were at that moment.
\<close>

datatype 'a outcome = Returned 'a | Raised

type_synonym backend_exn = "call list \<Rightarrow> nat option outcome"

definition ask_exn :: "backend_exn \<Rightarrow> call \<Rightarrow> world \<Rightarrow> nat option outcome \<times> world" where
  "ask_exn B c w = (B (calls w @ [c]), w\<lparr>calls := calls w @ [c]\<rparr>)"

definition getCachedMeter_exn ::
  "string \<Rightarrow> (world \<Rightarrow> handle option outcome \<times> world) \<Rightarrow> 'a MeterCollector_scheme \<Rightarrow> world
     \<Rightarrow> handle option outcome \<times> 'a MeterCollector_scheme \<times> world" where
  "getCachedMeter_exn cacheKey creator c w =
     (case meter c of
        None \<Rightarrow> (Returned None, c, w)
      | Some m \<Rightarrow>
          (case meter_cache c of
             None \<Rightarrow> (Returned None, c, w)
           | Some cache \<Rightarrow>
               (case map_of cache cacheKey of
                  None \<Rightarrow>
                    (case creator w of
                       (Raised, w') \<Rightarrow> (Raised, c, w')
                     | (Returned (Some h), w') \<Rightarrow>
                         (let c' = c\<lparr>meter_cache := Some (AList.update cacheKey h cache)\<rparr>
                          in (Returned (cached c' cacheKey), c', w'))
                     | (Returned None, w') \<Rightarrow> (Returned None, c, w'))
                | Some h \<Rightarrow> (Returned (cached c cacheKey), c, w))))"

definition createCounter_exn ::
  "backend_exn \<Rightarrow> 'a MeterCollector_scheme \<Rightarrow> string \<Rightarrow> MetricOptions option \<Rightarrow> world
     \<Rightarrow> handle option outcome \<times> world" where
  "createCounter_exn B c nm options w =
     (case meter c of
        None \<Rightarrow> (Returned None, w)
      | Some m \<Rightarrow> ask_exn B (CreateCounter m nm options) w)"

definition createObservableCounter_exn ::
  "backend_exn \<Rightarrow> 'a MeterCollector_scheme \<Rightarrow> string \<Rightarrow> MetricOptions option \<Rightarrow> world
     \<Rightarrow> handle option outcome \<times> world" where
  "createObservableCounter_exn B c nm options w =
     (case meter c of
        None \<Rightarrow> (Returned None, w)
      | Some m \<Rightarrow> ask_exn B (CreateObservableCounter m nm options) w)"

definition getCounter_exn ::
  "backend_exn \<Rightarrow> string \<Rightarrow> MetricOptions option \<Rightarrow> 'a MeterCollector_scheme \<Rightarrow> world
     \<Rightarrow> handle option outcome \<times> 'a MeterCollector_scheme \<times> world" where
  "getCounter_exn B nm options c w =
     (let cacheKey = ''counter-'' @ nm
      in getCachedMeter_exn cacheKey (createCounter_exn B c nm options) c w)"

definition getObservableCounter_exn ::
  "backend_exn \<Rightarrow> string \<Rightarrow> MetricOptions option \<Rightarrow> 'a MeterCollector_scheme \<Rightarrow> world
     \<Rightarrow> handle option outcome \<times> 'a MeterCollector_scheme \<times> world" where
  "getObservableCounter_exn B nm options c w =
     (let cacheKey = ''observable-counter-'' @ nm
      in getCachedMeter_exn cacheKey (createObservableCounter_exn B c nm options) c w)"

text \<open>
  A metrics API that never raises, and one that answers as a given API does but
  raises on every creation call.
\<close>

definition returning :: "backend \<Rightarrow> backend_exn" where
  "returning B log = Returned (B log)"

definition raising_creation :: "backend \<Rightarrow> backend_exn" where
  "raising_creation B log =
     (case rev log of
        CreateCounter m nm options # earlier \<Rightarrow> Raised
      | CreateObservableCounter m nm options # earlier \<Rightarrow> Raised
      | _ \<Rightarrow> Returned (B log))"

section \<open>Calls on a handle\<close>

text \<open>
  \<open>h?.add(delta, attributes)\<close> and \<open>h?.addCallback(cb)\<close> on a field that holds a
  handle or \<open>undefined\<close>: with no handle nothing is called. Both return nothing, so
  the only trace they leave is the call the metrics API received. The closure
  passed to \<open>addCallback\<close> is \<open>(observableResult) => observableResult.observe(qpsCounter.getQps())\<close>.
\<close>

definition counterAdd :: "handle option \<Rightarrow> int \<Rightarrow> Attributes option \<Rightarrow> world \<Rightarrow> world" where
  "counterAdd h delta attributes w =
     (case h of None \<Rightarrow> w | Some h' \<Rightarrow> w\<lparr>calls := calls w @ [Add h' delta attributes]\<rparr>)"

definition addCallback :: "handle option \<Rightarrow> QpsCounter \<Rightarrow> world \<Rightarrow> world" where
  "addCallback h q w =
     (case h of None \<Rightarrow> w | Some h' \<Rightarrow> w\<lparr>calls := calls w @ [AddCallback h' (intervalId q)]\<rparr>)"

fun is_AddCallback :: "call \<Rightarrow> bool" where
  "is_AddCallback (AddCallback h i) = True"
| "is_AddCallback _ = False"

definition callbacks :: "world \<Rightarrow> nat" where
  "callbacks w = length (filter is_AddCallback (calls w))"

section \<open>ProviderMeterCollector (meter-collector.ts)\<close>

record ProviderMeterCollector = MeterCollector +
  providerRequestTotal :: "handle option"
  providerRequestSucceedTotal :: "handle option"
  providerRequestFailedTotal :: "handle option"
  providerRequestQps :: "handle option"
  qpsCounter :: "QpsCounter option"

text \<open>
  The constructor: \<open>super(options)\<close>, then the four metrics through the cache of
  the base class, in the order of the source.
\<close>

definition ProviderMeterCollector_new ::
  "backend \<Rightarrow> MeterCollectorOptions option \<Rightarrow> world \<Rightarrow> ProviderMeterCollector \<times> world" where
  "ProviderMeterCollector_new B options w =
     (let this = \<lparr>meter = None, meter_cache = None,
                  providerRequestTotal = None, providerRequestSucceedTotal = None,
                  providerRequestFailedTotal = None, providerRequestQps = None,
                  ProviderMeterCollector.qpsCounter = None\<rparr>;
          (this, w) = MeterCollector_init B options this w;
          (h, this, w) = getCounter B ''dubbo_provider_requests_total''
             (Some \<lparr>description = ''The total number of received requests by the provider'',
                    valueType = ValueType_INT\<rparr>) this w;
          this = this\<lparr>providerRequestTotal := h\<rparr>;
          (h, this, w) = getCounter B ''dubbo_provider_requests_succeed_total''
             (Some \<lparr>description = ''The total number of successfully received requests by the provider'',
                    valueType = ValueType_INT\<rparr>) this w;
          this = this\<lparr>providerRequestSucceedTotal := h\<rparr>;
          (h, this, w) = getCounter B ''dubbo_provider_requests_failed_total''
             (Some \<lparr>description = ''The total number of unsuccessfully received requests by the provider'',
                    valueType = ValueType_INT\<rparr>) this w;
          this = this\<lparr>providerRequestFailedTotal := h\<rparr>;
          (h, this, w) = getObservableCounter B ''dubbo_provider_qps_total''
             (Some \<lparr>description = ''The number of requests received by the provider per second'',
                    valueType = ValueType_INT\<rparr>) this w;
          this = this\<lparr>providerRequestQps := h\<rparr>
      in (this, w))"

text \<open>
  \<open>providerRequest(attributes)\<close>: add to the total, build the QpsCounter and register
  the callback when \<open>this.qpsCounter == undefined\<close>, then increment.
\<close>

definition providerRequest ::
  "int \<Rightarrow> Attributes option \<Rightarrow> ProviderMeterCollector \<Rightarrow> world \<Rightarrow> ProviderMeterCollector \<times> world" where
  "providerRequest now attributes this w =
     (let w = counterAdd (providerRequestTotal this) 1 attributes w;
          (this, w) =
            (case ProviderMeterCollector.qpsCounter this of
               None \<Rightarrow>
                 (let (q, w) = QpsCounter_new w;
                      this = this\<lparr>ProviderMeterCollector.qpsCounter := Some q\<rparr>
                  in (this, addCallback (providerRequestQps this) q w))
             | Some q \<Rightarrow> (this, w))
      in (case ProviderMeterCollector.qpsCounter this of
            None \<Rightarrow> (this, w)
          | Some q \<Rightarrow> (this\<lparr>ProviderMeterCollector.qpsCounter := Some (increment now q)\<rparr>, w)))"

definition providerRequestSucceed ::
  "Attributes option \<Rightarrow> ProviderMeterCollector \<Rightarrow> world \<Rightarrow> ProviderMeterCollector \<times> world" where
  "providerRequestSucceed attributes this w =
     (this, counterAdd (providerRequestSucceedTotal this) 1 attributes w)"

definition providerRequestFailed ::
  "Attributes option \<Rightarrow> ProviderMeterCollector \<Rightarrow> world \<Rightarrow> ProviderMeterCollector \<times> world" where
  "providerRequestFailed attributes this w =
     (this, counterAdd (providerRequestFailedTotal this) 1 attributes w)"

text \<open>The override: \<open>super.shutdown()\<close>, then \<open>this.qpsCounter?.stop()\<close>.\<close>

definition ProviderMeterCollector_shutdown ::
  "ProviderMeterCollector \<Rightarrow> world \<Rightarrow> ProviderMeterCollector \<times> world" where
  "ProviderMeterCollector_shutdown this w =
     (let this = shutdown this
      in (case ProviderMeterCollector.qpsCounter this of
            None \<Rightarrow> (this, w)
          | Some q \<Rightarrow> (this, stop q w)))"

text \<open>
  What can happen to a provider collector: its own methods, the two getters it
  inherits, and the host running the interval of its QpsCounter.
\<close>

datatype provider_event =
    ProviderRequest int "Attributes option"
  | ProviderRequestSucceed "Attributes option"
  | ProviderRequestFailed "Attributes option"
  | ProviderShutdown
  | ProviderGetCounter string "MetricOptions option"
  | ProviderGetObservableCounter string "MetricOptions option"
  | ProviderTick int

fun provider_step ::
  "backend \<Rightarrow> provider_event \<Rightarrow> ProviderMeterCollector \<times> world \<Rightarrow> ProviderMeterCollector \<times> world" where
  "provider_step B (ProviderRequest now attributes) (this, w) = providerRequest now attributes this w"
| "provider_step B (ProviderRequestSucceed attributes) (this, w) = providerRequestSucceed attributes this w"
| "provider_step B (ProviderRequestFailed attributes) (this, w) = providerRequestFailed attributes this w"
| "provider_step B ProviderShutdown (this, w) = ProviderMeterCollector_shutdown this w"
| "provider_step B (ProviderGetCounter nm options) (this, w) = snd (getCounter B nm options this w)"
| "provider_step B (ProviderGetObservableCounter nm options) (this, w) =
     snd (getObservableCounter B nm options this w)"
| "provider_step B (ProviderTick now) (this, w) =
     (case ProviderMeterCollector.qpsCounter this of
        None \<Rightarrow> (this, w)
      | Some q \<Rightarrow>
          (this\<lparr>ProviderMeterCollector.qpsCounter := Some (fst (qps_step (Tick now) (q, w)))\<rparr>, w))"

definition provider_run ::
  "backend \<Rightarrow> provider_event list \<Rightarrow> ProviderMeterCollector \<times> world \<Rightarrow> ProviderMeterCollector \<times> world" where
  "provider_run B evs s = fold (provider_step B) evs s"

fun is_ProviderRequest :: "provider_event \<Rightarrow> bool" where
  "is_ProviderRequest (ProviderRequest now attributes) = True"
| "is_ProviderRequest _ = False"

text \<open>
  What a poll of the metrics API collects from the callbacks this collector
  registered on its qps handle: each callback observes \<open>qpsCounter.getQps()\<close> of
  the QpsCounter it captured, which is the one the collector holds.
\<close>

definition providerObserved :: "int \<Rightarrow> ProviderMeterCollector \<Rightarrow> world \<Rightarrow> int list" where
  "providerObserved now this w =
     (case ProviderMeterCollector.qpsCounter this of
        None \<Rightarrow> []
      | Some q \<Rightarrow>
          map (\<lambda>c. getQps now q)
              (filter (\<lambda>c. case c of AddCallback h i \<Rightarrow> i = intervalId q | _ \<Rightarrow> False) (calls w)))"


section \<open>ConsumerMeterCollector (meter-collector.ts)\<close>

record ConsumerMeterCollector = MeterCollector +
  consumerRequestTotal :: "handle option"
  consumerRequestSucceedTotal :: "handle option"
  consumerRequestFailedTotal :: "handle option"
  consumerRequestQps :: "handle option"
  qpsCounter :: "QpsCounter option"

text \<open>
  The constructor: \<open>super(options)\<close>, then the four metrics through the cache of
  the base class, in the order of the source.
\<close>

definition ConsumerMeterCollector_new ::
  "backend \<Rightarrow> MeterCollectorOptions option \<Rightarrow> world \<Rightarrow> ConsumerMeterCollector \<times> world" where
  "ConsumerMeterCollector_new B options w =
     (let this = \<lparr>meter = None, meter_cache = None,
                  consumerRequestTotal = None, consumerRequestSucceedTotal = None,
                  consumerRequestFailedTotal = None, consumerRequestQps = None,
                  ConsumerMeterCollector.qpsCounter = None\<rparr>;
          (this, w) = MeterCollector_init B options this w;
          (h, this, w) = getCounter B ''dubbo_consumer_requests_total''
             (Some \<lparr>description = ''The total number of received requests by the consumer'',
                    valueType = ValueType_INT\<rparr>) this w;
          this = this\<lparr>consumerRequestTotal := h\<rparr>;
          (h, this, w) = getCounter B ''dubbo_consumer_requests_succeed_total''
             (Some \<lparr>description = ''The total number of successfully received requests by the consumer'',
                    valueType = ValueType_INT\<rparr>) this w;
          this = this\<lparr>consumerRequestSucceedTotal := h\<rparr>;
          (h, this, w) = getCounter B ''dubbo_consumer_requests_failed_total''
             (Some \<lparr>description = ''The total number of unsuccessfully received requests by the consumer'',
                    valueType = ValueType_INT\<rparr>) this w;
          this = this\<lparr>consumerRequestFailedTotal := h\<rparr>;
          (h, this, w) = getObservableCounter B ''dubbo_consumer_qps_total''
             (Some \<lparr>description = ''The number of requests received by the consumer per second'',
                    valueType = ValueType_INT\<rparr>) this w;
          this = this\<lparr>consumerRequestQps := h\<rparr>
      in (this, w))"

text \<open>
  \<open>consumerRequest(attributes)\<close>: add to the total, build the QpsCounter and register
  the callback when \<open>this.qpsCounter == undefined\<close>, then increment.
\<close>

definition consumerRequest ::
  "int \<Rightarrow> Attributes option \<Rightarrow> ConsumerMeterCollector \<Rightarrow> world \<Rightarrow> ConsumerMeterCollector \<times> world" where
  "consumerRequest now attributes this w =
     (let w = counterAdd (consumerRequestTotal this) 1 attributes w;
          (this, w) =
            (case ConsumerMeterCollector.qpsCounter this of
               None \<Rightarrow>
                 (let (q, w) = QpsCounter_new w;
                      this = this\<lparr>ConsumerMeterCollector.qpsCounter := Some q\<rparr>
                  in (this, addCallback (consumerRequestQps this) q w))
             | Some q \<Rightarrow> (this, w))
      in (case ConsumerMeterCollector.qpsCounter this of
            None \<Rightarrow> (this, w)
          | Some q \<Rightarrow> (this\<lparr>ConsumerMeterCollector.qpsCounter := Some (increment now q)\<rparr>, w)))"

definition consumerRequestSucceed ::
  "Attributes option \<Rightarrow> ConsumerMeterCollector \<Rightarrow> world \<Rightarrow> ConsumerMeterCollector \<times> world" where
  "consumerRequestSucceed attributes this w =
     (this, counterAdd (consumerRequestSucceedTotal this) 1 attributes w)"

definition consumerRequestFailed ::
  "Attributes option \<Rightarrow> ConsumerMeterCollector \<Rightarrow> world \<Rightarrow> ConsumerMeterCollector \<times> world" where
  "consumerRequestFailed attributes this w =
     (this, counterAdd (consumerRequestFailedTotal this) 1 attributes w)"

text \<open>The override: \<open>super.shutdown()\<close>, then \<open>this.qpsCounter?.stop()\<close>.\<close>

definition ConsumerMeterCollector_shutdown ::
  "ConsumerMeterCollector \<Rightarrow> world \<Rightarrow> ConsumerMeterCollector \<times> world" where
  "ConsumerMeterCollector_shutdown this w =
     (let this = shutdown this
      in (case ConsumerMeterCollector.qpsCounter this of
            None \<Rightarrow> (this, w)
          | Some q \<Rightarrow> (this, stop q w)))"

text \<open>
  What can happen to a consumer collector: its own methods, the two getters it
  inherits, and the host running the interval of its QpsCounter.
\<close>

datatype consumer_event =
    ConsumerRequest int "Attributes option"
  | ConsumerRequestSucceed "Attributes option"
  | ConsumerRequestFailed "Attributes option"
  | ConsumerShutdown
  | ConsumerGetCounter string "MetricOptions option"
  | ConsumerGetObservableCounter string "MetricOptions option"
  | ConsumerTick int

fun consumer_step ::
  "backend \<Rightarrow> consumer_event \<Rightarrow> ConsumerMeterCollector \<times> world \<Rightarrow> ConsumerMeterCollector \<times> world" where
  "consumer_step B (ConsumerRequest now attributes) (this, w) = consumerRequest now attributes this w"
| "consumer_step B (ConsumerRequestSucceed attributes) (this, w) = consumerRequestSucceed attributes this w"
| "consumer_step B (ConsumerRequestFailed attributes) (this, w) = consumerRequestFailed attributes this w"
| "consumer_step B ConsumerShutdown (this, w) = ConsumerMeterCollector_shutdown this w"
| "consumer_step B (ConsumerGetCounter nm options) (this, w) = snd (getCounter B nm options this w)"
| "consumer_step B (ConsumerGetObservableCounter nm options) (this, w) =
     snd (getObservableCounter B nm options this w)"
| "consumer_step B (ConsumerTick now) (this, w) =
     (case ConsumerMeterCollector.qpsCounter this of
        None \<Rightarrow> (this, w)
      | Some q \<Rightarrow>
          (this\<lparr>ConsumerMeterCollector.qpsCounter := Some (fst (qps_step (Tick now) (q, w)))\<rparr>, w))"

definition consumer_run ::
  "backend \<Rightarrow> consumer_event list \<Rightarrow> ConsumerMeterCollector \<times> world \<Rightarrow> ConsumerMeterCollector \<times> world" where
  "consumer_run B evs s = fold (consumer_step B) evs s"

fun is_ConsumerRequest :: "consumer_event \<Rightarrow> bool" where
  "is_ConsumerRequest (ConsumerRequest now attributes) = True"
| "is_ConsumerRequest _ = False"

text \<open>
  What a poll of the metrics API collects from the callbacks this collector
  registered on its qps handle: each callback observes \<open>qpsCounter.getQps()\<close> of
  the QpsCounter it captured, which is the one the collector holds.
\<close>

definition consumerObserved :: "int \<Rightarrow> ConsumerMeterCollector \<Rightarrow> world \<Rightarrow> int list" where
  "consumerObserved now this w =
     (case ConsumerMeterCollector.qpsCounter this of
        None \<Rightarrow> []
      | Some q \<Rightarrow>
          map (\<lambda>c. getQps now q)
              (filter (\<lambda>c. case c of AddCallback h i \<Rightarrow> i = intervalId q | _ \<Rightarrow> False) (calls w)))"


section \<open>validateOpenTelemetryOption (observable.ts)\<close>

text \<open>
  A configuration is an object with string keys. \<open>own\<close> holds its own enumerable
  properties, the ones a spread copies; a key can be present there and hold
  \<open>undefined\<close>. \<open>inherited\<close> holds what a property read finds when the object has
  no own enumerable property of that name: a property of its prototype chain, or
  an own property that is not enumerable. \<open>Other\<close> stands for the values that are
  neither strings nor nullish (exporters, processors, flags).
\<close>

datatype jsvalue = Undefined | Null | Str string | Other nat

record NodeSDKConfiguration =
  own :: "string \<rightharpoonup> jsvalue"
  inherited :: "string \<rightharpoonup> jsvalue"

record ObservableOptions =
  enable :: "bool option"
  configuration :: "NodeSDKConfiguration option"

text \<open>\<open>o?.k\<close> on an object that may be \<open>undefined\<close>, and \<open>v ?? d\<close>.\<close>

definition getProp :: "NodeSDKConfiguration option \<Rightarrow> string \<Rightarrow> jsvalue" where
  "getProp obj k =
     (case obj of
        None \<Rightarrow> Undefined
      | Some cfg \<Rightarrow>
          (case own cfg k of
             Some v \<Rightarrow> v
           | None \<Rightarrow> (case inherited cfg k of None \<Rightarrow> Undefined | Some v \<Rightarrow> v)))"

definition nullish :: "jsvalue \<Rightarrow> jsvalue \<Rightarrow> jsvalue" where
  "nullish v d = (if v = Undefined \<or> v = Null then d else v)"

text \<open>
  \<open>{ serviceName: options?.configuration?.serviceName ?? "Dubbo", ...options?.configuration }\<close>.
  The result is a new object literal, given here by its own properties: first
  \<open>serviceName\<close>, then the spread, which copies every own enumerable property of
  the configuration over what is there.
\<close>

definition validateOpenTelemetryOption :: "ObservableOptions option \<Rightarrow> string \<rightharpoonup> jsvalue" where
  "validateOpenTelemetryOption options =
     (let cfg = (case options of None \<Rightarrow> None | Some opts \<Rightarrow> configuration opts)
      in [''serviceName'' \<mapsto> nullish (getProp cfg ''serviceName'') (Str ''Dubbo'')]
           ++ (case cfg of None \<Rightarrow> Map.empty | Some c \<Rightarrow> own c))"

section \<open>Properties of QpsCounter\<close>

subsection \<open>What each operation does to the buckets\<close>

lemma fold_delete_filter:
  "fold (\<lambda>key c. if P key then AList.delete key c else c) ks c
     = filter (\<lambda>(k, v). \<not> (k \<in> set ks \<and> P k)) c"
proof (induction ks arbitrary: c)
  case Nil
  show ?case by simp
next
  case (Cons a ks)
  show ?case
    by (auto simp: Cons.IH AList.delete_eq intro!: filter_cong)
qed

lemma counter_sweep:
  "counter (sweep now q) = filter (\<lambda>(k, v). \<not> k < currentSecond now - 5) (counter q)"
  unfolding sweep_def Let_def
  by (auto simp: fold_delete_filter intro!: filter_cong image_eqI[where f = fst])

lemma map_of_filter_key:
  "map_of (filter (\<lambda>(k, v). P k) xs) k = (if P k then map_of xs k else None)"
  by (induction xs) auto

lemma getQps_bucket: "getQps now q = bucket q (currentSecond now - 1)"
  by (simp add: getQps_def bucket_def Let_def split: option.splits)

lemma bucket_increment:
  "bucket (increment now q) k = (if k = currentSecond now then bucket q k + 1 else bucket q k)"
  by (simp add: increment_def bucket_def Let_def AList.update_conv' split: option.splits)

lemma bucket_sweep:
  "bucket (sweep now q) k = (if k < currentSecond now - 5 then 0 else bucket q k)"
  by (simp add: bucket_def counter_sweep map_of_filter_key)

lemma set_update_cases:
  "x \<in> set (AList.update k v al) \<Longrightarrow> x = (k, v) \<or> x \<in> set al"
  by (induction al) (auto split: if_splits)

lemma increment_pos:
  assumes "\<forall>(k, v)\<in>set (counter q). 0 < v"
  shows "\<forall>(k, v)\<in>set (counter (increment now q)). 0 < v"
proof -
  have pos: "0 < n" if "map_of (counter q) k = Some n" for k n
    using assms map_of_SomeD[OF that] by auto
  show ?thesis
  proof (cases "map_of (counter q) (currentSecond now)")
    case None
    then show ?thesis using assms
      by (auto simp: increment_def Let_def dest!: set_update_cases)
  next
    case (Some n)
    with pos have "0 < n" by blast
    with Some show ?thesis using assms
      by (auto simp: increment_def Let_def dest!: set_update_cases)
  qed
qed

lemma sweep_pos:
  "\<forall>(k, v)\<in>set (counter q). 0 < v \<Longrightarrow> \<forall>(k, v)\<in>set (counter (sweep now q)). 0 < v"
  by (auto simp: counter_sweep)

lemma qps_run_Nil: "qps_run [] s = s"
  by (simp add: qps_run_def)

lemma qps_run_Cons: "qps_run (e # evs) s = qps_run evs (qps_step e s)"
  by (simp add: qps_run_def)

lemma qps_run_append: "qps_run (evs @ evs') s = qps_run evs' (qps_run evs s)"
  by (simp add: qps_run_def)

lemma bucket_step:
  assumes "\<And>t. e = Tick t \<Longrightarrow> currentSecond t - 5 \<le> k"
  shows "bucket (fst (qps_step e (q, w))) k = bucket q k + int (incs_in k [e])"
  using assms by (cases e) (auto simp: bucket_increment bucket_sweep incs_in_def)

lemma incs_in_Cons: "incs_in k (e # evs) = incs_in k [e] + incs_in k evs"
  by (simp add: incs_in_def)

lemma bucket_run:
  assumes "\<And>t. Tick t \<in> set evs \<Longrightarrow> currentSecond t - 5 \<le> k"
  shows "bucket (fst (qps_run evs (q, w))) k = bucket q k + int (incs_in k evs)"
  using assms
proof (induction evs arbitrary: q w)
  case Nil
  show ?case by (simp add: qps_run_Nil incs_in_def)
next
  case (Cons e evs)
  obtain q1 w1 where s1: "qps_step e (q, w) = (q1, w1)" by (cases "qps_step e (q, w)")
  have "bucket q1 k = bucket q k + int (incs_in k [e])"
    using bucket_step[of e k q w] Cons.prems s1 by simp
  moreover have "bucket (fst (qps_run evs (q1, w1))) k = bucket q1 k + int (incs_in k evs)"
    using Cons.IH Cons.prems by simp
  ultimately show ?case
    using incs_in_Cons[of k e evs] by (simp add: qps_run_Cons s1)
qed

lemma during_Tick: "during s (Tick t) \<Longrightarrow> currentSecond t = s"
  by (simp add: during_def)

lemma incs_in_during:
  "\<forall>e\<in>set evs. during s e \<Longrightarrow> incs_in s evs = length (filter is_Increment evs)"
  by (induction evs) (auto simp: incs_in_def during_def split: qps_event.splits)

lemma incs_in_other:
  "\<forall>e\<in>set evs. during s' e \<Longrightarrow> s' \<noteq> s \<Longrightarrow> incs_in s evs = 0"
  by (induction evs) (auto simp: incs_in_def during_def split: qps_event.splits)

lemma counter_new: "counter (fst (QpsCounter_new w)) = []"
  by (simp add: QpsCounter_new_def setInterval_def)

subsection \<open>The one-second lag of getQps\<close>

text \<open>
  Claim C1, as the code has it. Take a QpsCounter in any state that has no bucket
  yet for second \<open>s\<close>, and let \<open>increment()\<close> be called \<open>N\<close> times while the clock
  shows second \<open>s\<close>, between any sweeps, reads and stops of that second. While
  second \<open>s\<close> is in progress \<open>getQps()\<close> is what it was before the increments: it
  reads the bucket of \<open>s - 1\<close> only, so it returns \<open>0\<close> when that second has no
  bucket. Once the clock shows \<open>s + 1\<close>, whatever else happens in that second,
  \<open>getQps()\<close> returns exactly \<open>N\<close>. A freshly constructed QpsCounter returns \<open>0\<close>.
\<close>

theorem C1_getQps_lag:
  assumes evs: "\<forall>e\<in>set evs. during s e"
      and evs': "\<forall>e\<in>set evs'. during (s + 1) e"
      and fresh: "map_of (counter q) s = None"
  shows "(currentSecond t = s \<longrightarrow> getQps t (fst (qps_run evs (q, w))) = getQps t q)
       \<and> (currentSecond t = s \<longrightarrow> map_of (counter q) (s - 1) = None
            \<longrightarrow> getQps t (fst (qps_run evs (q, w))) = 0)
       \<and> (currentSecond t' = s + 1
            \<longrightarrow> getQps t' (fst (qps_run (evs @ evs') (q, w)))
                  = int (length (filter is_Increment evs)))
       \<and> getQps t (fst (QpsCounter_new w0)) = 0"
proof -
  have keep: "currentSecond u - 5 \<le> s - 1" if "Tick u \<in> set evs" for u
    using evs that during_Tick by fastforce
  have prev: "bucket (fst (qps_run evs (q, w))) (s - 1) = bucket q (s - 1)"
    using bucket_run[of evs "s - 1" q w] keep incs_in_other[OF evs, of "s - 1"] by simp
  have keep2: "currentSecond u - 5 \<le> s" if "Tick u \<in> set (evs @ evs')" for u
    using evs evs' that during_Tick by fastforce
  have "incs_in s (evs @ evs') = incs_in s evs + incs_in s evs'"
    by (simp add: incs_in_def)
  then have n: "incs_in s (evs @ evs') = length (filter is_Increment evs)"
    using incs_in_during[OF evs] incs_in_other[OF evs', of s] by simp
  have cur: "bucket (fst (qps_run (evs @ evs') (q, w))) s = int (length (filter is_Increment evs))"
    using bucket_run[of "evs @ evs'" s q w] keep2 n fresh by (simp add: bucket_def)
  show ?thesis
    using prev cur by (simp add: getQps_bucket bucket_def counter_new)
qed

theorem C1_getQps_lag_witness:
  "getQps 1999 (fst (qps_run [Increment 1000, Increment 1500, Tick 1700, Increment 1999]
                      (QpsCounter_new world0))) = 0
 \<and> getQps 2999 (fst (qps_run ([Increment 1000, Increment 1500, Tick 1700, Increment 1999]
                               @ [Tick 2700, Increment 2800])
                      (QpsCounter_new world0))) = 3"
proof -
  obtain q w where new: "QpsCounter_new world0 = (q, w)" by (cases "QpsCounter_new world0")
  then have q: "counter q = []" using counter_new[of world0] by simp
  have a: "\<forall>e\<in>set [Increment 1000, Increment 1500, Tick 1700, Increment 1999]. during 1 e"
    by (simp add: during_def currentSecond_def)
  have b: "\<forall>e\<in>set [Tick 2700, Increment 2800]. during (1 + 1) e"
    by (simp add: during_def currentSecond_def)
  have c: "map_of (counter q) 1 = None" by (simp add: q)
  show ?thesis
    using C1_getQps_lag[OF a b c, of 1999 w 2999 world0]
    by (simp add: new currentSecond_def q getQps_def)
qed

text \<open>
  As C1 is worded, \<open>getQps()\<close> would return \<open>0\<close> during the second of the
  increments on every QpsCounter. Three requests in second 0 and two in second 1:
  read during second 1, \<open>getQps()\<close> returns the 3 of second 0.
\<close>

theorem C1_getQps_counterexample:
  "getQps 1500 (fst (qps_run [Increment 1200, Increment 1300]
                     (qps_run [Increment 500, Increment 600, Increment 700]
                        (QpsCounter_new world0)))) = 3"
  by (simp add: qps_run_def QpsCounter_new_def setInterval_def world0_def increment_def
      getQps_def currentSecond_def)

subsection \<open>Reachable states of a QpsCounter\<close>

lemma qps_step_cases:
  "fst (qps_step e (q, w)) = q
   \<or> (\<exists>t. e = Increment t \<and> fst (qps_step e (q, w)) = increment t q)
   \<or> (\<exists>t. e = Tick t \<and> fst (qps_step e (q, w)) = sweep t q)"
  by (cases e) simp_all

lemma qps_run_induct:
  assumes "P (fst s)"
      and "\<And>q t. Increment t \<in> set evs \<Longrightarrow> P q \<Longrightarrow> P (increment t q)"
      and "\<And>q t. Tick t \<in> set evs \<Longrightarrow> P q \<Longrightarrow> P (sweep t q)"
  shows "P (fst (qps_run evs s))"
  using assms
proof (induction evs arbitrary: s)
  case Nil
  then show ?case by (simp add: qps_run_Nil)
next
  case (Cons e evs)
  obtain q w where s: "s = (q, w)" by (cases s)
  have q: "P q" using Cons.prems(1) s by simp
  have "P (fst (qps_step e (q, w)))"
    using qps_step_cases[of e q w] q Cons.prems(2)[of _ q] Cons.prems(3)[of _ q]
    by (metis list.set_intros(1))
  moreover have "\<And>q t. Increment t \<in> set evs \<Longrightarrow> P q \<Longrightarrow> P (increment t q)"
    using Cons.prems(2) by simp
  moreover have "\<And>q t. Tick t \<in> set evs \<Longrightarrow> P q \<Longrightarrow> P (sweep t q)"
    using Cons.prems(3) by simp
  ultimately have "P (fst (qps_run evs (qps_step e (q, w))))"
    by (rule Cons.IH)
  then show ?case by (simp add: qps_run_Cons s)
qed





subsection \<open>The sweep and the trailing window\<close>




subsection \<open>Stored counts are positive\<close>

lemma pos_run:
  assumes "\<forall>(k, v)\<in>set (counter (fst s)). 0 < v"
  shows "\<forall>(k, v)\<in>set (counter (fst (qps_run evs s))). 0 < v"
proof (rule qps_run_induct[where P = "\<lambda>q. \<forall>(k, v)\<in>set (counter q). 0 < v"])
  show "\<forall>(k, v)\<in>set (counter (fst s)). 0 < v" by (fact assms)
next
  fix q :: QpsCounter and t :: int
  assume "\<forall>(k, v)\<in>set (counter q). 0 < v"
  then show "\<forall>(k, v)\<in>set (counter (increment t q)). 0 < v" by (rule increment_pos)
next
  fix q :: QpsCounter and t :: int
  assume "\<forall>(k, v)\<in>set (counter q). 0 < v"
  then show "\<forall>(k, v)\<in>set (counter (sweep t q)). 0 < v" by (rule sweep_pos)
qed

text \<open>
  Claim C10. In every state a QpsCounter can reach from its constructor, every
  count stored in the mapping is strictly positive, so a bucket that exists is
  never read as absent by the truthiness tests of \<open>getQps\<close> and \<open>increment\<close>;
  and \<open>getQps\<close> leaves the QpsCounter and the world as they are.
\<close>

theorem C10_counts_positive:
  assumes run: "qps_run evs (QpsCounter_new w) = (q, w')"
  shows "(\<forall>(k, v)\<in>set (counter q). 0 < v)
       \<and> (\<forall>k n. map_of (counter q) k = Some n \<longrightarrow> 0 < n)
       \<and> (\<forall>now. getQps now q
             = (case map_of (counter q) (currentSecond now - 1) of None \<Rightarrow> 0 | Some n \<Rightarrow> n))
       \<and> (\<forall>now. qps_step (GetQps now) (q, w') = (q, w'))"
proof -
  have "\<forall>(k, v)\<in>set (counter (fst (qps_run evs (QpsCounter_new w)))). 0 < v"
    by (rule pos_run) (simp add: counter_new)
  then have pos: "\<forall>(k, v)\<in>set (counter q). 0 < v" using run by simp
  have "0 < n" if "map_of (counter q) k = Some n" for k n
    using pos map_of_SomeD[OF that] by auto
  then show ?thesis
    using pos by (simp add: getQps_bucket bucket_def)
qed

theorem C10_counts_positive_witness:
  "counter (fst (qps_run [Increment 600, Increment 700, Tick 1500, GetQps 1600, Increment 1700]
                   (QpsCounter_new world0))) = [(0, 2), (1, 1)]
   \<and> (0::int) < 2 \<and> (0::int) < 1"
proof -
  let ?evs = "[Increment 600, Increment 700, Tick 1500, GetQps 1600, Increment 1700]"
  obtain q w' where run: "qps_run ?evs (QpsCounter_new world0) = (q, w')"
    by (cases "qps_run ?evs (QpsCounter_new world0)")
  have q: "counter q = [(0, 2), (1, 1)]"
  proof -
    have "fst (qps_run ?evs (QpsCounter_new world0))
            = \<lparr>counter = [(0, 2), (1, 1)], intervalId = 0\<rparr>"
      by (simp add: qps_run_def QpsCounter_new_def setInterval_def world0_def increment_def
          sweep_def AList.delete_eq currentSecond_def)
    then show ?thesis by (simp add: run)
  qed
  show ?thesis
    using C10_counts_positive[OF run] by (simp add: run q)
qed

section \<open>Properties of MeterCollector\<close>

subsection \<open>The cache\<close>

lemma getCachedMeter_unbound:
  "meter c = None \<Longrightarrow> getCachedMeter k creator c w = (None, c, w)"
  by (simp add: getCachedMeter_def)

lemma getCachedMeter_hit:
  assumes "meter c = Some m" and "cached c k = Some h"
  shows "getCachedMeter k creator c w = (Some h, c, w)"
  using assms by (auto simp: getCachedMeter_def cached_def split: option.splits)

lemma getCachedMeter_miss:
  assumes "meter c = Some m" and "meter_cache c = Some cache" and "map_of cache k = None"
  shows "getCachedMeter k creator c w =
           (case creator w of
              (Some h, w') \<Rightarrow> (Some h, c\<lparr>meter_cache := Some (AList.update k h cache)\<rparr>, w')
            | (None, w') \<Rightarrow> (None, c, w'))"
  using assms
  by (simp add: getCachedMeter_def cached_def AList.update_conv' split: prod.splits option.splits)

lemma getCachedMeter_frame:
  "\<exists>x. fst (snd (getCachedMeter k creator c w)) = c\<lparr>meter_cache := x\<rparr>"
proof (cases "getCachedMeter k creator c w = (fst (getCachedMeter k creator c w), c, snd (snd (getCachedMeter k creator c w)))")
  case True
  then have "fst (snd (getCachedMeter k creator c w)) = c\<lparr>meter_cache := meter_cache c\<rparr>"
    by (metis fst_conv snd_conv MeterCollector.surjective MeterCollector.update_convs(2))
  then show ?thesis by blast
next
  case False
  then show ?thesis
    by (auto simp: getCachedMeter_def Let_def split: option.splits prod.splits)
qed

lemma getCounter_unbound:
  "meter c = None \<Longrightarrow> getCounter B nm options c w = (None, c, w)"
  by (simp add: getCounter_def getCachedMeter_unbound)

lemma getObservableCounter_unbound:
  "meter c = None \<Longrightarrow> getObservableCounter B nm options c w = (None, c, w)"
  by (simp add: getObservableCounter_def getCachedMeter_unbound)

lemma getCounter_miss:
  assumes "meter c = Some m" and "meter_cache c = Some cache"
      and "map_of cache (''counter-'' @ nm) = None"
  shows "getCounter B nm options c w =
           (case B (calls w @ [CreateCounter m nm options]) of
              Some h \<Rightarrow> (Some h, c\<lparr>meter_cache := Some (AList.update (''counter-'' @ nm) h cache)\<rparr>,
                         w\<lparr>calls := calls w @ [CreateCounter m nm options]\<rparr>)
            | None \<Rightarrow> (None, c, w\<lparr>calls := calls w @ [CreateCounter m nm options]\<rparr>))"
  using assms
  by (simp add: getCounter_def getCachedMeter_miss[OF assms(1,2)] createCounter_def ask_def
      split: option.splits)

lemma getObservableCounter_miss:
  assumes "meter c = Some m" and "meter_cache c = Some cache"
      and "map_of cache (''observable-counter-'' @ nm) = None"
  shows "getObservableCounter B nm options c w =
           (case B (calls w @ [CreateObservableCounter m nm options]) of
              Some h \<Rightarrow> (Some h,
                         c\<lparr>meter_cache := Some (AList.update (''observable-counter-'' @ nm) h cache)\<rparr>,
                         w\<lparr>calls := calls w @ [CreateObservableCounter m nm options]\<rparr>)
            | None \<Rightarrow> (None, c, w\<lparr>calls := calls w @ [CreateObservableCounter m nm options]\<rparr>))"
  using assms
  by (simp add: getObservableCounter_def getCachedMeter_miss[OF assms(1,2)]
      createObservableCounter_def ask_def split: option.splits)

lemma MeterCollector_new_none:
  "MeterCollector_new backend_none None world0
     = (\<lparr>meter = None, meter_cache = Some []\<rparr>,
        \<lparr>calls = [GetMeter ''dubbo-js'' ''0.0.1''], intervals = [], nextInterval = 0\<rparr>)"
  by (simp add: MeterCollector_new_def MeterCollector_init_def ask_def backend_none_def
      world0_def orDefault_def)

lemma MeterCollector_new_flaky:
  "MeterCollector_new backend_flaky None world0
     = (\<lparr>meter = Some 0, meter_cache = Some []\<rparr>,
        \<lparr>calls = [GetMeter ''dubbo-js'' ''0.0.1''], intervals = [], nextInterval = 0\<rparr>)"
  by (simp add: MeterCollector_new_def MeterCollector_init_def ask_def backend_flaky_def
      world0_def orDefault_def)

lemma MeterCollector_new_fresh:
  "MeterCollector_new backend_fresh None world0
     = (\<lparr>meter = Some 1, meter_cache = Some []\<rparr>,
        \<lparr>calls = [GetMeter ''dubbo-js'' ''0.0.1''], intervals = [], nextInterval = 0\<rparr>)"
  by (simp add: MeterCollector_new_def MeterCollector_init_def ask_def backend_fresh_def
      world0_def orDefault_def)

subsection \<open>No handle, and a creation that raises\<close>

lemma getCachedMeter_exn_unbound:
  "meter c = None \<Longrightarrow> getCachedMeter_exn k creator c w = (Returned None, c, w)"
  by (simp add: getCachedMeter_exn_def)

lemma getCachedMeter_exn_miss:
  assumes "meter c = Some m" and "meter_cache c = Some cache" and "map_of cache k = None"
  shows "getCachedMeter_exn k creator c w =
           (case creator w of
              (Raised, w') \<Rightarrow> (Raised, c, w')
            | (Returned (Some h), w') \<Rightarrow>
                (Returned (Some h), c\<lparr>meter_cache := Some (AList.update k h cache)\<rparr>, w')
            | (Returned None, w') \<Rightarrow> (Returned None, c, w'))"
  using assms
  by (simp add: getCachedMeter_exn_def cached_def AList.update_conv'
      split: prod.splits option.splits outcome.splits)

lemma getCounter_exn_miss:
  assumes "meter c = Some m" and "meter_cache c = Some cache"
      and "map_of cache (''counter-'' @ nm) = None"
  shows "getCounter_exn B nm options c w =
           (case B (calls w @ [CreateCounter m nm options]) of
              Raised \<Rightarrow> (Raised, c, w\<lparr>calls := calls w @ [CreateCounter m nm options]\<rparr>)
            | Returned None \<Rightarrow>
                (Returned None, c, w\<lparr>calls := calls w @ [CreateCounter m nm options]\<rparr>)
            | Returned (Some h) \<Rightarrow>
                (Returned (Some h),
                 c\<lparr>meter_cache := Some (AList.update (''counter-'' @ nm) h cache)\<rparr>,
                 w\<lparr>calls := calls w @ [CreateCounter m nm options]\<rparr>))"
  using assms
  by (simp add: getCounter_exn_def getCachedMeter_exn_miss[OF assms(1,2)] createCounter_exn_def
      ask_exn_def split: option.splits outcome.splits)

lemma getObservableCounter_exn_miss:
  assumes "meter c = Some m" and "meter_cache c = Some cache"
      and "map_of cache (''observable-counter-'' @ nm) = None"
  shows "getObservableCounter_exn B nm options c w =
           (case B (calls w @ [CreateObservableCounter m nm options]) of
              Raised \<Rightarrow>
                (Raised, c, w\<lparr>calls := calls w @ [CreateObservableCounter m nm options]\<rparr>)
            | Returned None \<Rightarrow>
                (Returned None, c,
                 w\<lparr>calls := calls w @ [CreateObservableCounter m nm options]\<rparr>)
            | Returned (Some h) \<Rightarrow>
                (Returned (Some h),
                 c\<lparr>meter_cache := Some (AList.update (''observable-counter-'' @ nm) h cache)\<rparr>,
                 w\<lparr>calls := calls w @ [CreateObservableCounter m nm options]\<rparr>))"
  using assms
  by (simp add: getObservableCounter_exn_def getCachedMeter_exn_miss[OF assms(1,2)]
      createObservableCounter_exn_def ask_exn_def split: option.splits outcome.splits)

text \<open>
  Over a metrics API that never raises, the getters written with outcomes are the
  getters of the sections above: the same handle, the same collector, the same
  world, and always returned.
\<close>

lemma getCachedMeter_exn_returning:
  assumes "\<And>v. creator' v = (Returned (fst (creator v)), snd (creator v))"
  shows "getCachedMeter_exn k creator' c w
           = (Returned (fst (getCachedMeter k creator c w)), snd (getCachedMeter k creator c w))"
  by (cases "creator w")
     (simp add: getCachedMeter_exn_def getCachedMeter_def assms Let_def split: option.splits)

lemma getCounter_exn_returning:
  "getCounter_exn (returning B) nm options c w
     = (Returned (fst (getCounter B nm options c w)), snd (getCounter B nm options c w))"
  unfolding getCounter_exn_def getCounter_def Let_def
  by (rule getCachedMeter_exn_returning)
     (simp add: createCounter_exn_def createCounter_def ask_exn_def ask_def returning_def
      split: option.splits)

lemma getObservableCounter_exn_returning:
  "getObservableCounter_exn (returning B) nm options c w
     = (Returned (fst (getObservableCounter B nm options c w)),
        snd (getObservableCounter B nm options c w))"
  unfolding getObservableCounter_exn_def getObservableCounter_def Let_def
  by (rule getCachedMeter_exn_returning)
     (simp add: createObservableCounter_exn_def createObservableCounter_def ask_exn_def ask_def
      returning_def split: option.splits)

text \<open>
  Claim C5, as the code has it. With no meter bound, \<open>getCounter\<close> and
  \<open>getObservableCounter\<close> return \<open>undefined\<close>, change nothing and call nothing, so
  nothing can raise. With a meter bound and no entry for the key, the creation
  call is made: when it returns no handle the getter returns \<open>undefined\<close>; when it
  raises, the exception leaves the getter, which has no \<open>try\<close>. Either way the
  collector is as it was, its cache included, and the only trace is the creation
  call the metrics API received; so a later call with the same name, in whatever
  world, asks the metrics API to create the handle again. Over a metrics API that
  never raises these are the getters of the sections above.
\<close>

theorem C5_absent_handle:
  "(meter c = None \<longrightarrow>
      getCounter_exn B nm options c w = (Returned None, c, w)
    \<and> getObservableCounter_exn B nm options c w = (Returned None, c, w))
 \<and> (meter c = Some m \<and> meter_cache c = Some cache
      \<and> map_of cache (''counter-'' @ nm) = None \<longrightarrow>
      (B (calls w @ [CreateCounter m nm options]) = Returned None \<longrightarrow>
         getCounter_exn B nm options c w
           = (Returned None, c, w\<lparr>calls := calls w @ [CreateCounter m nm options]\<rparr>))
    \<and> (B (calls w @ [CreateCounter m nm options]) = Raised \<longrightarrow>
         getCounter_exn B nm options c w
           = (Raised, c, w\<lparr>calls := calls w @ [CreateCounter m nm options]\<rparr>))
    \<and> calls (snd (snd (getCounter_exn B nm options' c w')))
        = calls w' @ [CreateCounter m nm options'])
 \<and> (meter c = Some m \<and> meter_cache c = Some cache
      \<and> map_of cache (''observable-counter-'' @ nm) = None \<longrightarrow>
      (B (calls w @ [CreateObservableCounter m nm options]) = Returned None \<longrightarrow>
         getObservableCounter_exn B nm options c w
           = (Returned None, c, w\<lparr>calls := calls w @ [CreateObservableCounter m nm options]\<rparr>))
    \<and> (B (calls w @ [CreateObservableCounter m nm options]) = Raised \<longrightarrow>
         getObservableCounter_exn B nm options c w
           = (Raised, c, w\<lparr>calls := calls w @ [CreateObservableCounter m nm options]\<rparr>))
    \<and> calls (snd (snd (getObservableCounter_exn B nm options' c w')))
        = calls w' @ [CreateObservableCounter m nm options'])
 \<and> getCounter_exn (returning B') nm options c w
     = (Returned (fst (getCounter B' nm options c w)), snd (getCounter B' nm options c w))
 \<and> getObservableCounter_exn (returning B') nm options c w
     = (Returned (fst (getObservableCounter B' nm options c w)),
        snd (getObservableCounter B' nm options c w))"
proof (intro conjI impI)
  assume "meter c = None"
  then show "getCounter_exn B nm options c w = (Returned None, c, w)"
    by (simp add: getCounter_exn_def getCachedMeter_exn_unbound)
next
  assume "meter c = None"
  then show "getObservableCounter_exn B nm options c w = (Returned None, c, w)"
    by (simp add: getObservableCounter_exn_def getCachedMeter_exn_unbound)
next
  assume "meter c = Some m \<and> meter_cache c = Some cache
      \<and> map_of cache (''counter-'' @ nm) = None"
    and "B (calls w @ [CreateCounter m nm options]) = Returned None"
  then show "getCounter_exn B nm options c w
           = (Returned None, c, w\<lparr>calls := calls w @ [CreateCounter m nm options]\<rparr>)"
    by (simp add: getCounter_exn_miss)
next
  assume "meter c = Some m \<and> meter_cache c = Some cache
      \<and> map_of cache (''counter-'' @ nm) = None"
    and "B (calls w @ [CreateCounter m nm options]) = Raised"
  then show "getCounter_exn B nm options c w
           = (Raised, c, w\<lparr>calls := calls w @ [CreateCounter m nm options]\<rparr>)"
    by (simp add: getCounter_exn_miss)
next
  assume "meter c = Some m \<and> meter_cache c = Some cache
      \<and> map_of cache (''counter-'' @ nm) = None"
  then show "calls (snd (snd (getCounter_exn B nm options' c w')))
        = calls w' @ [CreateCounter m nm options']"
    by (simp add: getCounter_exn_miss split: option.splits outcome.splits)
next
  assume "meter c = Some m \<and> meter_cache c = Some cache
      \<and> map_of cache (''observable-counter-'' @ nm) = None"
    and "B (calls w @ [CreateObservableCounter m nm options]) = Returned None"
  then show "getObservableCounter_exn B nm options c w
           = (Returned None, c, w\<lparr>calls := calls w @ [CreateObservableCounter m nm options]\<rparr>)"
    by (simp add: getObservableCounter_exn_miss)
next
  assume "meter c = Some m \<and> meter_cache c = Some cache
      \<and> map_of cache (''observable-counter-'' @ nm) = None"
    and "B (calls w @ [CreateObservableCounter m nm options]) = Raised"
  then show "getObservableCounter_exn B nm options c w
           = (Raised, c, w\<lparr>calls := calls w @ [CreateObservableCounter m nm options]\<rparr>)"
    by (simp add: getObservableCounter_exn_miss)
next
  assume "meter c = Some m \<and> meter_cache c = Some cache
      \<and> map_of cache (''observable-counter-'' @ nm) = None"
  then show "calls (snd (snd (getObservableCounter_exn B nm options' c w')))
        = calls w' @ [CreateObservableCounter m nm options']"
    by (simp add: getObservableCounter_exn_miss split: option.splits outcome.splits)
next
  show "getCounter_exn (returning B') nm options c w
     = (Returned (fst (getCounter B' nm options c w)), snd (getCounter B' nm options c w))"
    by (rule getCounter_exn_returning)
next
  show "getObservableCounter_exn (returning B') nm options c w
     = (Returned (fst (getObservableCounter B' nm options c w)),
        snd (getObservableCounter B' nm options c w))"
    by (rule getObservableCounter_exn_returning)
qed

theorem C5_absent_handle_witness:
  "getCounter_exn (returning backend_none) ''x'' None
      (fst (MeterCollector_new backend_none None world0))
      (snd (MeterCollector_new backend_none None world0))
     = (Returned None, MeterCollector_new backend_none None world0)
 \<and> getCounter_exn (returning backend_flaky) ''x'' None
      (fst (MeterCollector_new backend_flaky None world0))
      (snd (MeterCollector_new backend_flaky None world0))
     = (Returned None, fst (MeterCollector_new backend_flaky None world0),
        \<lparr>calls = [GetMeter ''dubbo-js'' ''0.0.1'', CreateCounter 0 ''x'' None],
         intervals = [], nextInterval = 0\<rparr>)
 \<and> getObservableCounter_exn (raising_creation backend_flaky) ''x'' None
      (fst (MeterCollector_new backend_flaky None world0))
      (snd (MeterCollector_new backend_flaky None world0))
     = (Raised, fst (MeterCollector_new backend_flaky None world0),
        \<lparr>calls = [GetMeter ''dubbo-js'' ''0.0.1'', CreateObservableCounter 0 ''x'' None],
         intervals = [], nextInterval = 0\<rparr>)"
proof -
  let ?c = "fst (MeterCollector_new backend_none None world0)"
  let ?w = "snd (MeterCollector_new backend_none None world0)"
  let ?c' = "fst (MeterCollector_new backend_flaky None world0)"
  let ?w' = "snd (MeterCollector_new backend_flaky None world0)"
  note none = C5_absent_handle[where c = ?c and B = "returning backend_none" and nm = "''x''"
      and options = None and w = ?w and m = 0 and cache = "[]" and options' = None
      and w' = ?w and B' = backend_none]
  note returned = C5_absent_handle[where c = ?c' and m = 0 and cache = "[]" and nm = "''x''"
      and B = "returning backend_flaky" and w = ?w' and options = None and options' = None
      and w' = ?w' and B' = backend_flaky]
  note raised = C5_absent_handle[where c = ?c' and m = 0 and cache = "[]" and nm = "''x''"
      and B = "raising_creation backend_flaky" and w = ?w' and options = None
      and options' = None and w' = ?w' and B' = backend_flaky]
  have 1: "getCounter_exn (returning backend_none) ''x'' None ?c ?w = (Returned None, ?c, ?w)"
    using none by (simp add: MeterCollector_new_none)
  have 2: "getCounter_exn (returning backend_flaky) ''x'' None ?c' ?w'
             = (Returned None, ?c', ?w'\<lparr>calls := calls ?w' @ [CreateCounter 0 ''x'' None]\<rparr>)"
    using returned by (simp add: MeterCollector_new_flaky backend_flaky_def returning_def)
  have 3: "getObservableCounter_exn (raising_creation backend_flaky) ''x'' None ?c' ?w'
             = (Raised, ?c', ?w'\<lparr>calls := calls ?w' @ [CreateObservableCounter 0 ''x'' None]\<rparr>)"
    using raised by (simp add: MeterCollector_new_flaky raising_creation_def)
  show ?thesis
    using 1 2 3 by (simp add: MeterCollector_new_flaky)
qed

text \<open>
  As C5 is worded, the getters would never throw when the creation of the handle
  fails. A creation can fail by raising, and then the getter throws: on a
  collector with meter 1 bound and an empty cache, \<open>getCounter("x")\<close> and
  \<open>getObservableCounter("x")\<close> over a metrics API whose creation calls raise are
  left by the exception, after the creation call and with the cache still empty.
\<close>

theorem C5_absent_handle_counterexample:
  "getCounter_exn (raising_creation backend_fresh) ''x'' None
      (fst (MeterCollector_new backend_fresh None world0))
      (snd (MeterCollector_new backend_fresh None world0))
     = (Raised, \<lparr>meter = Some 1, meter_cache = Some []\<rparr>,
        \<lparr>calls = [GetMeter ''dubbo-js'' ''0.0.1'', CreateCounter 1 ''x'' None],
         intervals = [], nextInterval = 0\<rparr>)
 \<and> getObservableCounter_exn (raising_creation backend_fresh) ''x'' None
      (fst (MeterCollector_new backend_fresh None world0))
      (snd (MeterCollector_new backend_fresh None world0))
     = (Raised, \<lparr>meter = Some 1, meter_cache = Some []\<rparr>,
        \<lparr>calls = [GetMeter ''dubbo-js'' ''0.0.1'', CreateObservableCounter 1 ''x'' None],
         intervals = [], nextInterval = 0\<rparr>)"
  by (simp add: MeterCollector_new_fresh getCounter_exn_def getObservableCounter_exn_def
      getCachedMeter_exn_def createCounter_exn_def createObservableCounter_exn_def ask_exn_def
      raising_creation_def)

subsection \<open>A cached handle stays\<close>

lemma getCachedMeter_keeps:
  assumes "meter c = Some m" and "cached c k = Some h"
  shows "meter (fst (snd (getCachedMeter k' creator c w))) = Some m
       \<and> cached (fst (snd (getCachedMeter k' creator c w))) k = Some h"
  using assms
  by (auto simp: getCachedMeter_def cached_def Let_def AList.update_conv'
      split: option.splits prod.splits)

lemma createCalls_append:
  "createCalls k (w\<lparr>calls := calls w @ [c]\<rparr>) = createCalls k w + (if creates k c then 1 else 0)"
  by (simp add: createCalls_def)

lemma getCounter_createCalls:
  assumes "meter c = Some m" and "cached c k = Some h"
  shows "createCalls k (snd (snd (getCounter B nm options c w))) = createCalls k w"
proof (cases "cached c (''counter-'' @ nm)")
  case (Some h')
  then show ?thesis
    by (simp add: getCounter_def getCachedMeter_hit[OF assms(1)])
next
  case None
  then have ne: "k \<noteq> ''counter-'' @ nm" using assms(2) by auto
  obtain cache where cache: "meter_cache c = Some cache"
    using assms(2) by (auto simp: cached_def split: option.splits)
  then have "map_of cache (''counter-'' @ nm) = None" using None by (simp add: cached_def)
  then show ?thesis
    using ne by (simp add: getCounter_miss[OF assms(1) cache] createCalls_append
        split: option.splits)
qed

lemma getObservableCounter_createCalls:
  assumes "meter c = Some m" and "cached c k = Some h"
  shows "createCalls k (snd (snd (getObservableCounter B nm options c w))) = createCalls k w"
proof (cases "cached c (''observable-counter-'' @ nm)")
  case (Some h')
  then show ?thesis
    by (simp add: getObservableCounter_def getCachedMeter_hit[OF assms(1)])
next
  case None
  then have ne: "k \<noteq> ''observable-counter-'' @ nm" using assms(2) by auto
  obtain cache where cache: "meter_cache c = Some cache"
    using assms(2) by (auto simp: cached_def split: option.splits)
  then have "map_of cache (''observable-counter-'' @ nm) = None"
    using None by (simp add: cached_def)
  then show ?thesis
    using ne by (simp add: getObservableCounter_miss[OF assms(1) cache] createCalls_append
        split: option.splits)
qed

lemma collector_run_Nil: "collector_run B [] s = s"
  by (simp add: collector_run_def)

lemma collector_run_Cons: "collector_run B (e # evs) s = collector_run B evs (collector_step B e s)"
  by (simp add: collector_run_def)

lemma collector_step_keeps:
  assumes "meter c = Some m" and "cached c k = Some h" and "e \<noteq> Shutdown"
  shows "meter (fst (collector_step B e (c, w))) = Some m
       \<and> cached (fst (collector_step B e (c, w))) k = Some h
       \<and> createCalls k (snd (collector_step B e (c, w))) = createCalls k w"
proof (cases e)
  case (GetCounter nm options)
  then show ?thesis
    using getCachedMeter_keeps[OF assms(1,2)] getCounter_createCalls[OF assms(1,2)]
    by (simp add: getCounter_def)
next
  case (GetObservableCounter nm options)
  then show ?thesis
    using getCachedMeter_keeps[OF assms(1,2)] getObservableCounter_createCalls[OF assms(1,2)]
    by (simp add: getObservableCounter_def)
next
  case Shutdown
  then show ?thesis using assms(3) by simp
qed

lemma collector_run_keeps:
  assumes "meter c = Some m" and "cached c k = Some h" and "Shutdown \<notin> set evs"
  shows "meter (fst (collector_run B evs (c, w))) = Some m
       \<and> cached (fst (collector_run B evs (c, w))) k = Some h
       \<and> createCalls k (snd (collector_run B evs (c, w))) = createCalls k w"
  using assms
proof (induction evs arbitrary: c w)
  case Nil
  then show ?case by (simp add: collector_run_Nil)
next
  case (Cons e evs)
  obtain c1 w1 where s1: "collector_step B e (c, w) = (c1, w1)"
    by (cases "collector_step B e (c, w)")
  have e: "e \<noteq> Shutdown" using Cons.prems(3) by auto
  have "meter c1 = Some m \<and> cached c1 k = Some h \<and> createCalls k w1 = createCalls k w"
    using collector_step_keeps[OF Cons.prems(1,2) e, of B w] s1 by simp
  then show ?case
    using Cons.IH[of c1 w1] Cons.prems(3) by (simp add: collector_run_Cons s1)
qed

lemma getCachedMeter_Some:
  assumes "getCachedMeter k creator c w = (Some h, c1, w1)"
  shows "meter c1 \<noteq> None \<and> cached c1 k = Some h"
  using assms
  by (auto simp: getCachedMeter_def cached_def Let_def AList.update_conv'
      split: option.splits prod.splits)

text \<open>
  Claim C4, as the code has it. Once a call of \<open>getCounter\<close> (or of
  \<open>getObservableCounter\<close>) for a name has returned a handle, then after any
  further calls of the two getters, for any names, and as long as \<open>shutdown()\<close> has
  not been called, a call for the same name returns the identical handle, changes
  neither the collector nor the world, and the metrics API has not been asked
  again to create the handle of that cache key.
\<close>

theorem C4_cached_handle:
  assumes "Shutdown \<notin> set evs"
      and "collector_run B evs (c1, w1) = (c2, w2)"
  shows "(getCounter B nm options c w = (Some h, c1, w1) \<longrightarrow>
            getCounter B nm options' c2 w2 = (Some h, c2, w2)
          \<and> createCalls (''counter-'' @ nm) w2 = createCalls (''counter-'' @ nm) w1)
       \<and> (getObservableCounter B nm options c w = (Some h, c1, w1) \<longrightarrow>
            getObservableCounter B nm options' c2 w2 = (Some h, c2, w2)
          \<and> createCalls (''observable-counter-'' @ nm) w2
              = createCalls (''observable-counter-'' @ nm) w1)"
proof (intro conjI impI)
  assume "getCounter B nm options c w = (Some h, c1, w1)"
  then have "meter c1 \<noteq> None \<and> cached c1 (''counter-'' @ nm) = Some h"
    unfolding getCounter_def Let_def by (rule getCachedMeter_Some)
  then obtain m where m: "meter c1 = Some m" and h: "cached c1 (''counter-'' @ nm) = Some h"
    by auto
  have keep: "meter c2 = Some m \<and> cached c2 (''counter-'' @ nm) = Some h
       \<and> createCalls (''counter-'' @ nm) w2 = createCalls (''counter-'' @ nm) w1"
    using collector_run_keeps[OF m h assms(1), of B w1] assms(2) by simp
  then show "getCounter B nm options' c2 w2 = (Some h, c2, w2)"
    by (simp add: getCounter_def getCachedMeter_hit)
  from keep show "createCalls (''counter-'' @ nm) w2 = createCalls (''counter-'' @ nm) w1"
    by simp
next
  assume "getObservableCounter B nm options c w = (Some h, c1, w1)"
  then have "meter c1 \<noteq> None \<and> cached c1 (''observable-counter-'' @ nm) = Some h"
    unfolding getObservableCounter_def Let_def by (rule getCachedMeter_Some)
  then obtain m where m: "meter c1 = Some m"
      and h: "cached c1 (''observable-counter-'' @ nm) = Some h"
    by auto
  have keep: "meter c2 = Some m \<and> cached c2 (''observable-counter-'' @ nm) = Some h
       \<and> createCalls (''observable-counter-'' @ nm) w2
           = createCalls (''observable-counter-'' @ nm) w1"
    using collector_run_keeps[OF m h assms(1), of B w1] assms(2) by simp
  then show "getObservableCounter B nm options' c2 w2 = (Some h, c2, w2)"
    by (simp add: getObservableCounter_def getCachedMeter_hit)
  from keep show "createCalls (''observable-counter-'' @ nm) w2
                    = createCalls (''observable-counter-'' @ nm) w1"
    by simp
qed

lemmas getter_defs =
  collector_run_def getCounter_def getObservableCounter_def getCachedMeter_def
  createCounter_def createObservableCounter_def ask_def cached_def shutdown_def
  AList.delete_eq createCalls_def

theorem C4_cached_handle_witness:
  "getCounter backend_fresh ''x'' None
     (fst (collector_run backend_fresh
             [GetCounter ''x'' None, GetObservableCounter ''x'' None, GetCounter ''y'' None]
             (MeterCollector_new backend_fresh None world0)))
     (snd (collector_run backend_fresh
             [GetCounter ''x'' None, GetObservableCounter ''x'' None, GetCounter ''y'' None]
             (MeterCollector_new backend_fresh None world0)))
   = (Some 2,
      collector_run backend_fresh
        [GetCounter ''x'' None, GetObservableCounter ''x'' None, GetCounter ''y'' None]
        (MeterCollector_new backend_fresh None world0))"
proof -
  let ?c0 = "\<lparr>meter = Some 1, meter_cache = Some []\<rparr>"
  let ?w0 = "\<lparr>calls = [GetMeter ''dubbo-js'' ''0.0.1''], intervals = [], nextInterval = 0\<rparr>"
  let ?c1 = "\<lparr>meter = Some 1, meter_cache = Some [(''counter-x'', 2)]\<rparr>"
  let ?w1 = "\<lparr>calls = [GetMeter ''dubbo-js'' ''0.0.1'', CreateCounter 1 ''x'' None],
              intervals = [], nextInterval = 0\<rparr>"
  let ?evs = "[GetObservableCounter ''x'' None, GetCounter ''y'' None]"
  obtain c2 w2 where run: "collector_run backend_fresh ?evs (?c1, ?w1) = (c2, w2)"
    by (cases "collector_run backend_fresh ?evs (?c1, ?w1)")
  have first: "getCounter backend_fresh ''x'' None ?c0 ?w0 = (Some 2, ?c1, ?w1)"
    by (simp add: getter_defs backend_fresh_def)
  have no_shutdown: "Shutdown \<notin> set ?evs" by simp
  have "getCounter backend_fresh ''x'' None c2 w2 = (Some 2, c2, w2)"
    using C4_cached_handle[OF no_shutdown run] first by blast
  moreover have "collector_run backend_fresh (GetCounter ''x'' None # ?evs)
                   (MeterCollector_new backend_fresh None world0) = (c2, w2)"
    using run first by (simp add: collector_run_Cons MeterCollector_new_fresh)
  ultimately show ?thesis by simp
qed

text \<open>
  As C4 is worded, the creation for a cache key would be invoked at most once for
  the lifetime of the registry, and two calls would return the identical handle.
  After \<open>shutdown()\<close> the cache is empty, so the next \<open>getCounter("x")\<close> creates
  again: two creation calls, and here two different handles (2, then 3). And when
  the first creation yields no handle nothing is cached, so the second call creates
  again: two creation calls, and the two calls return \<open>undefined\<close> and a handle.
\<close>

theorem C4_cached_handle_counterexample:
  "createCalls ''counter-x''
     (snd (collector_run backend_fresh [GetCounter ''x'' None, Shutdown, GetCounter ''x'' None]
             (MeterCollector_new backend_fresh None world0))) = 2
 \<and> cached (fst (collector_run backend_fresh [GetCounter ''x'' None]
             (MeterCollector_new backend_fresh None world0))) ''counter-x'' = Some 2
 \<and> cached (fst (collector_run backend_fresh [GetCounter ''x'' None, Shutdown, GetCounter ''x'' None]
             (MeterCollector_new backend_fresh None world0))) ''counter-x'' = Some 3
 \<and> createCalls ''counter-x''
     (snd (collector_run backend_flaky [GetCounter ''x'' None, GetCounter ''x'' None]
             (MeterCollector_new backend_flaky None world0))) = 2
 \<and> fst (getCounter backend_flaky ''x'' None
          (fst (MeterCollector_new backend_flaky None world0))
          (snd (MeterCollector_new backend_flaky None world0))) = None
 \<and> fst (getCounter backend_flaky ''x'' None
          (fst (collector_run backend_flaky [GetCounter ''x'' None]
                  (MeterCollector_new backend_flaky None world0)))
          (snd (collector_run backend_flaky [GetCounter ''x'' None]
                  (MeterCollector_new backend_flaky None world0)))) = Some 3"
  by (simp add: getter_defs MeterCollector_new_fresh MeterCollector_new_flaky
      backend_fresh_def backend_flaky_def)

subsection \<open>shutdown\<close>

lemma fold_delete_cache:
  "fold (\<lambda>key c'. case meter_cache c' of
                     None \<Rightarrow> c'
                   | Some cache' \<Rightarrow> c'\<lparr>meter_cache := Some (AList.delete key cache')\<rparr>)
        ks (c\<lparr>meter_cache := Some cache\<rparr>)
     = c\<lparr>meter_cache := Some (filter (\<lambda>(k, v). k \<notin> set ks) cache)\<rparr>"
proof (induction ks arbitrary: cache)
  case Nil
  show ?case by simp
next
  case (Cons a ks)
  have "filter (\<lambda>(k, v). k \<notin> set ks) (AList.delete a cache)
          = filter (\<lambda>(k, v). k \<notin> set (a # ks)) cache"
    by (auto simp: AList.delete_eq intro!: filter_cong)
  then show ?case by (simp add: Cons.IH)
qed

lemma shutdown_eq:
  "shutdown c = (case meter_cache c of None \<Rightarrow> c | Some cache \<Rightarrow> c\<lparr>meter_cache := Some []\<rparr>)"
proof (cases "meter_cache c")
  case None
  then show ?thesis by (simp add: shutdown_def)
next
  case (Some cache)
  then have c: "c = c\<lparr>meter_cache := Some cache\<rparr>" by simp
  have "filter (\<lambda>(k, v). k \<notin> set (map fst cache)) cache = []"
    by (force simp: filter_empty_conv)
  then have "fold (\<lambda>key c'. case meter_cache c' of
                     None \<Rightarrow> c'
                   | Some cache' \<Rightarrow> c'\<lparr>meter_cache := Some (AList.delete key cache')\<rparr>)
        (map fst cache) (c\<lparr>meter_cache := Some cache\<rparr>) = c\<lparr>meter_cache := Some []\<rparr>"
    by (simp add: fold_delete_cache)
  then show ?thesis using Some c by (simp add: shutdown_def)
qed

lemma shutdown_idem: "shutdown (shutdown c) = shutdown c"
  by (simp add: shutdown_eq split: option.splits)

lemma cached_shutdown: "cached (shutdown c) k = None"
  by (simp add: shutdown_eq cached_def split: option.splits)

text \<open>
  Claim C8. \<open>shutdown()\<close> of the base class empties the cache and leaves every
  other field of the object as it was, the fields of a subclass included; it takes
  no world, so it clears no interval and calls nothing. The \<open>shutdown()\<close> of a
  provider or consumer collector is that, followed by \<open>clearInterval\<close> on the
  interval of the QpsCounter when the collector holds one, and by nothing when it
  holds none.
\<close>

theorem C8_shutdown_frame:
  "shutdown c = (case meter_cache c of None \<Rightarrow> c | Some cache \<Rightarrow> c\<lparr>meter_cache := Some []\<rparr>)
 \<and> meter (shutdown c) = meter c
 \<and> MeterCollector.more (shutdown c) = MeterCollector.more c
 \<and> ProviderMeterCollector.qpsCounter (shutdown p) = ProviderMeterCollector.qpsCounter p
 \<and> ConsumerMeterCollector.qpsCounter (shutdown u) = ConsumerMeterCollector.qpsCounter u
 \<and> collector_step B Shutdown (c, w) = (shutdown c, w)
 \<and> ProviderMeterCollector_shutdown p w
     = (shutdown p,
        case ProviderMeterCollector.qpsCounter p of
          None \<Rightarrow> w
        | Some q \<Rightarrow> w\<lparr>intervals := removeAll (intervalId q) (intervals w)\<rparr>)
 \<and> ConsumerMeterCollector_shutdown u w
     = (shutdown u,
        case ConsumerMeterCollector.qpsCounter u of
          None \<Rightarrow> w
        | Some q \<Rightarrow> w\<lparr>intervals := removeAll (intervalId q) (intervals w)\<rparr>)"
proof -
  have 1: "shutdown c
             = (case meter_cache c of None \<Rightarrow> c | Some cache \<Rightarrow> c\<lparr>meter_cache := Some []\<rparr>)"
    by (rule shutdown_eq)
  have 2: "ProviderMeterCollector.qpsCounter (shutdown p) = ProviderMeterCollector.qpsCounter p"
    by (simp add: shutdown_eq split: option.splits)
  have 3: "ConsumerMeterCollector.qpsCounter (shutdown u) = ConsumerMeterCollector.qpsCounter u"
    by (simp add: shutdown_eq split: option.splits)
  have 4: "ProviderMeterCollector_shutdown p w
     = (shutdown p,
        case ProviderMeterCollector.qpsCounter p of
          None \<Rightarrow> w
        | Some q \<Rightarrow> w\<lparr>intervals := removeAll (intervalId q) (intervals w)\<rparr>)"
    by (simp add: ProviderMeterCollector_shutdown_def Let_def 2 stop_def clearInterval_def
        split: option.splits)
  have 5: "ConsumerMeterCollector_shutdown u w
     = (shutdown u,
        case ConsumerMeterCollector.qpsCounter u of
          None \<Rightarrow> w
        | Some q \<Rightarrow> w\<lparr>intervals := removeAll (intervalId q) (intervals w)\<rparr>)"
    by (simp add: ConsumerMeterCollector_shutdown_def Let_def 3 stop_def clearInterval_def
        split: option.splits)
  have 6: "meter (shutdown c) = meter c \<and> MeterCollector.more (shutdown c) = MeterCollector.more c"
    by (simp add: shutdown_eq split: option.splits)
  show ?thesis using 1 2 3 4 5 6 by simp
qed

subsection \<open>Releasing twice\<close>

lemma stop_twice: "stop q (stop q w) = stop q w"
  by (simp add: stop_def clearInterval_def)

lemma stop_again: "qps_run (replicate n Stop) (q, stop q w) = (q, stop q w)"
  by (induction n) (simp_all add: qps_run_Nil qps_run_Cons stop_twice)

lemma shutdown_again: "collector_run B (replicate n Shutdown) (shutdown c, w) = (shutdown c, w)"
  by (induction n) (simp_all add: collector_run_Nil collector_run_Cons shutdown_idem)

lemma provider_run_Nil: "provider_run B [] s = s"
  by (simp add: provider_run_def)

lemma provider_run_Cons: "provider_run B (e # evs) s = provider_run B evs (provider_step B e s)"
  by (simp add: provider_run_def)

lemma Provider_qps_shutdown:
  "ProviderMeterCollector.qpsCounter (shutdown p) = ProviderMeterCollector.qpsCounter p"
  by (simp add: shutdown_eq split: option.splits)

lemma Provider_shutdown_eq:
  "ProviderMeterCollector_shutdown p w
     = (shutdown p,
        case ProviderMeterCollector.qpsCounter p of None \<Rightarrow> w | Some q \<Rightarrow> stop q w)"
  by (simp add: ProviderMeterCollector_shutdown_def Let_def Provider_qps_shutdown split: option.splits)

lemma Provider_shutdown_twice:
  "ProviderMeterCollector_shutdown (fst (ProviderMeterCollector_shutdown p w))
     (snd (ProviderMeterCollector_shutdown p w)) = ProviderMeterCollector_shutdown p w"
  by (simp add: Provider_shutdown_eq shutdown_idem Provider_qps_shutdown stop_twice split: option.splits)

lemma Provider_shutdown_again:
  "provider_run B (replicate n ProviderShutdown) (ProviderMeterCollector_shutdown p w)
     = ProviderMeterCollector_shutdown p w"
proof (induction n)
  case 0
  show ?case by (simp add: provider_run_Nil)
next
  case (Suc n)
  have "provider_step B ProviderShutdown (ProviderMeterCollector_shutdown p w)
          = ProviderMeterCollector_shutdown p w"
    using Provider_shutdown_twice[of p w]
    by (cases "ProviderMeterCollector_shutdown p w") simp
  then show ?case using Suc by (simp add: provider_run_Cons)
qed

lemma consumer_run_Nil: "consumer_run B [] s = s"
  by (simp add: consumer_run_def)

lemma consumer_run_Cons: "consumer_run B (e # evs) s = consumer_run B evs (consumer_step B e s)"
  by (simp add: consumer_run_def)

lemma Consumer_qps_shutdown:
  "ConsumerMeterCollector.qpsCounter (shutdown p) = ConsumerMeterCollector.qpsCounter p"
  by (simp add: shutdown_eq split: option.splits)

lemma Consumer_shutdown_eq:
  "ConsumerMeterCollector_shutdown p w
     = (shutdown p,
        case ConsumerMeterCollector.qpsCounter p of None \<Rightarrow> w | Some q \<Rightarrow> stop q w)"
  by (simp add: ConsumerMeterCollector_shutdown_def Let_def Consumer_qps_shutdown split: option.splits)

lemma Consumer_shutdown_twice:
  "ConsumerMeterCollector_shutdown (fst (ConsumerMeterCollector_shutdown p w))
     (snd (ConsumerMeterCollector_shutdown p w)) = ConsumerMeterCollector_shutdown p w"
  by (simp add: Consumer_shutdown_eq shutdown_idem Consumer_qps_shutdown stop_twice split: option.splits)

lemma Consumer_shutdown_again:
  "consumer_run B (replicate n ConsumerShutdown) (ConsumerMeterCollector_shutdown p w)
     = ConsumerMeterCollector_shutdown p w"
proof (induction n)
  case 0
  show ?case by (simp add: consumer_run_Nil)
next
  case (Suc n)
  have "consumer_step B ConsumerShutdown (ConsumerMeterCollector_shutdown p w)
          = ConsumerMeterCollector_shutdown p w"
    using Consumer_shutdown_twice[of p w]
    by (cases "ConsumerMeterCollector_shutdown p w") simp
  then show ?case using Suc by (simp add: consumer_run_Cons)
qed

text \<open>
  Claim C7. Calling \<open>stop()\<close> on a QpsCounter, or \<open>shutdown()\<close> on a collector of
  the base class, on a provider collector or on a consumer collector, any number
  of times in a row leaves the same state as calling it once. After the first call
  the interval of the QpsCounter is not scheduled and the cache has no entry.
  None of them calls the metrics API, and none has a failing branch.
\<close>

theorem C7_idempotent:
  "qps_run (replicate (Suc n) Stop) (q, w) = (q, stop q w)
 \<and> intervalId q \<notin> set (intervals (stop q w))
 \<and> calls (stop q w) = calls w
 \<and> collector_run B (replicate (Suc n) Shutdown) (c, w) = (shutdown c, w)
 \<and> cached (shutdown c) k = None
 \<and> provider_run B (replicate (Suc n) ProviderShutdown) (p, w) = ProviderMeterCollector_shutdown p w
 \<and> cached (fst (ProviderMeterCollector_shutdown p w)) k = None
 \<and> calls (snd (ProviderMeterCollector_shutdown p w)) = calls w
 \<and> (case ProviderMeterCollector.qpsCounter (fst (ProviderMeterCollector_shutdown p w)) of
       None \<Rightarrow> ProviderMeterCollector.qpsCounter p = None
     | Some q' \<Rightarrow> intervalId q' \<notin> set (intervals (snd (ProviderMeterCollector_shutdown p w))))
 \<and> consumer_run B (replicate (Suc n) ConsumerShutdown) (u, w) = ConsumerMeterCollector_shutdown u w
 \<and> cached (fst (ConsumerMeterCollector_shutdown u w)) k = None
 \<and> calls (snd (ConsumerMeterCollector_shutdown u w)) = calls w
 \<and> (case ConsumerMeterCollector.qpsCounter (fst (ConsumerMeterCollector_shutdown u w)) of
       None \<Rightarrow> ConsumerMeterCollector.qpsCounter u = None
     | Some q' \<Rightarrow> intervalId q' \<notin> set (intervals (snd (ConsumerMeterCollector_shutdown u w))))"
proof -
  have 1: "qps_run (replicate (Suc n) Stop) (q, w) = (q, stop q w)"
    using stop_again[of n q w] by (simp add: qps_run_Cons)
  have 2: "intervalId q \<notin> set (intervals (stop q w)) \<and> calls (stop q w) = calls w"
    by (simp add: stop_def clearInterval_def)
  have 3: "collector_run B (replicate (Suc n) Shutdown) (c, w) = (shutdown c, w)"
    using shutdown_again[of B n c w] by (simp add: collector_run_Cons)
  have 4: "provider_run B (replicate (Suc n) ProviderShutdown) (p, w)
             = ProviderMeterCollector_shutdown p w"
    using Provider_shutdown_again[of B n p w] by (simp add: provider_run_Cons)
  have 5: "consumer_run B (replicate (Suc n) ConsumerShutdown) (u, w)
             = ConsumerMeterCollector_shutdown u w"
    using Consumer_shutdown_again[of B n u w] by (simp add: consumer_run_Cons)
  have 6: "cached (fst (ProviderMeterCollector_shutdown p w)) k = None
         \<and> calls (snd (ProviderMeterCollector_shutdown p w)) = calls w
         \<and> (case ProviderMeterCollector.qpsCounter (fst (ProviderMeterCollector_shutdown p w)) of
               None \<Rightarrow> ProviderMeterCollector.qpsCounter p = None
             | Some q' \<Rightarrow>
                 intervalId q' \<notin> set (intervals (snd (ProviderMeterCollector_shutdown p w))))"
    by (simp add: Provider_shutdown_eq cached_shutdown Provider_qps_shutdown stop_def clearInterval_def
        split: option.splits)
  have 7: "cached (fst (ConsumerMeterCollector_shutdown u w)) k = None
         \<and> calls (snd (ConsumerMeterCollector_shutdown u w)) = calls w
         \<and> (case ConsumerMeterCollector.qpsCounter (fst (ConsumerMeterCollector_shutdown u w)) of
               None \<Rightarrow> ConsumerMeterCollector.qpsCounter u = None
             | Some q' \<Rightarrow>
                 intervalId q' \<notin> set (intervals (snd (ConsumerMeterCollector_shutdown u w))))"
    by (simp add: Consumer_shutdown_eq cached_shutdown Consumer_qps_shutdown stop_def clearInterval_def
        split: option.splits)
  show ?thesis using 1 2 3 4 5 6 7 by (simp add: cached_shutdown)
qed

section \<open>Properties of the provider and consumer collectors\<close>

subsection \<open>What the getters leave alone\<close>

lemma getCounter_resD:
  assumes "getCounter B nm options c w = (h, c', w')"
  shows "(\<exists>x. c' = c\<lparr>meter_cache := x\<rparr>) \<and> (meter c = None \<longrightarrow> h = None)
       \<and> intervals w' = intervals w \<and> nextInterval w' = nextInterval w
       \<and> callbacks w' = callbacks w"
proof -
  have "\<exists>x. fst (snd (getCounter B nm options c w)) = c\<lparr>meter_cache := x\<rparr>"
    unfolding getCounter_def Let_def by (rule getCachedMeter_frame)
  moreover have "meter c = None \<longrightarrow> h = None"
    using assms by (auto simp: getCounter_unbound)
  moreover have "intervals w' = intervals w \<and> nextInterval w' = nextInterval w
       \<and> callbacks w' = callbacks w"
    using assms
    by (auto simp: getCounter_def getCachedMeter_def createCounter_def ask_def Let_def
        callbacks_def split: option.splits prod.splits)
  ultimately show ?thesis using assms by simp
qed

lemma getObservableCounter_resD:
  assumes "getObservableCounter B nm options c w = (h, c', w')"
  shows "(\<exists>x. c' = c\<lparr>meter_cache := x\<rparr>) \<and> (meter c = None \<longrightarrow> h = None)
       \<and> intervals w' = intervals w \<and> nextInterval w' = nextInterval w
       \<and> callbacks w' = callbacks w"
proof -
  have "\<exists>x. fst (snd (getObservableCounter B nm options c w)) = c\<lparr>meter_cache := x\<rparr>"
    unfolding getObservableCounter_def Let_def by (rule getCachedMeter_frame)
  moreover have "meter c = None \<longrightarrow> h = None"
    using assms by (auto simp: getObservableCounter_unbound)
  moreover have "intervals w' = intervals w \<and> nextInterval w' = nextInterval w
       \<and> callbacks w' = callbacks w"
    using assms
    by (auto simp: getObservableCounter_def getCachedMeter_def createObservableCounter_def
        ask_def Let_def callbacks_def split: option.splits prod.splits)
  ultimately show ?thesis using assms by simp
qed


lemma counterAdd_frame:
  "intervals (counterAdd h d a w) = intervals w
 \<and> nextInterval (counterAdd h d a w) = nextInterval w
 \<and> callbacks (counterAdd h d a w) = callbacks w
 \<and> (h = None \<longrightarrow> counterAdd h d a w = w)"
  by (simp add: counterAdd_def callbacks_def split: option.splits)

lemma addCallback_frame:
  "intervals (addCallback h q w) = intervals w
 \<and> nextInterval (addCallback h q w) = nextInterval w
 \<and> callbacks (addCallback h q w) = callbacks w + (if h = None then 0 else 1)
 \<and> (h = None \<longrightarrow> addCallback h q w = w)"
  by (simp add: addCallback_def callbacks_def split: option.splits)

lemma ask_resD:
  assumes "ask B c w = (r, w')"
  shows "nextInterval w' = nextInterval w \<and> intervals w' = intervals w
       \<and> callbacks w' = callbacks w + (if is_AddCallback c then 1 else 0)"
  using assms by (auto simp: ask_def callbacks_def)

lemma callbacks_timers:
  "callbacks (w\<lparr>intervals := x\<rparr>) = callbacks w"
  "callbacks (w\<lparr>nextInterval := y\<rparr>) = callbacks w"
  by (simp_all add: callbacks_def)

subsection \<open>The provider collector\<close>

lemma Provider_new_facts:
  assumes "ProviderMeterCollector_new B options w = (p, w')"
  shows "ProviderMeterCollector.qpsCounter p = None
       \<and> (meter p = None \<longrightarrow>
            providerRequestTotal p = None \<and> providerRequestSucceedTotal p = None
          \<and> providerRequestFailedTotal p = None \<and> providerRequestQps p = None)
       \<and> nextInterval w' = nextInterval w \<and> callbacks w' = callbacks w"
  using assms
  by (auto simp: ProviderMeterCollector_new_def MeterCollector_init_def Let_def
      split: prod.splits dest!: getCounter_resD getObservableCounter_resD ask_resD)

lemma providerRequest_eq:
  "providerRequest now a p w =
     (case ProviderMeterCollector.qpsCounter p of
        None \<Rightarrow>
          (p\<lparr>ProviderMeterCollector.qpsCounter :=
               Some (increment now \<lparr>counter = [], intervalId = nextInterval w\<rparr>)\<rparr>,
           addCallback (providerRequestQps p) \<lparr>counter = [], intervalId = nextInterval w\<rparr>
             (snd (setInterval (counterAdd (providerRequestTotal p) 1 a w))))
      | Some q \<Rightarrow>
          (p\<lparr>ProviderMeterCollector.qpsCounter := Some (increment now q)\<rparr>,
           counterAdd (providerRequestTotal p) 1 a w))"
  by (simp add: providerRequest_def Let_def QpsCounter_new_def setInterval_def counterAdd_def
      split: option.splits)

lemma provider_step_handles:
  assumes "provider_step B e (p, w) = (p', w')"
  shows "meter p' = meter p \<and> providerRequestTotal p' = providerRequestTotal p
       \<and> providerRequestSucceedTotal p' = providerRequestSucceedTotal p
       \<and> providerRequestFailedTotal p' = providerRequestFailedTotal p
       \<and> providerRequestQps p' = providerRequestQps p"
proof (cases e)
  case (ProviderRequest now a)
  then show ?thesis using assms
    by (auto simp: providerRequest_eq split: option.splits)
next
  case (ProviderRequestSucceed a)
  then show ?thesis using assms by (auto simp: providerRequestSucceed_def)
next
  case (ProviderRequestFailed a)
  then show ?thesis using assms by (auto simp: providerRequestFailed_def)
next
  case ProviderShutdown
  then show ?thesis using assms
    by (auto simp: Provider_shutdown_eq shutdown_eq split: option.splits)
next
  case (ProviderGetCounter nm options)
  then have "getCounter B nm options p w = (fst (getCounter B nm options p w), p', w')"
    using assms by (cases "getCounter B nm options p w") simp
  from getCounter_resD[OF this] show ?thesis by auto
next
  case (ProviderGetObservableCounter nm options)
  then have "getObservableCounter B nm options p w
               = (fst (getObservableCounter B nm options p w), p', w')"
    using assms by (cases "getObservableCounter B nm options p w") simp
  from getObservableCounter_resD[OF this] show ?thesis by auto
next
  case (ProviderTick now)
  then show ?thesis using assms by (auto split: option.splits)
qed

lemma provider_step_counts:
  assumes "provider_step B e (p, w) = (p', w')"
  shows "(ProviderMeterCollector.qpsCounter p' = None)
           = (ProviderMeterCollector.qpsCounter p = None \<and> \<not> is_ProviderRequest e)
       \<and> nextInterval w'
           = nextInterval w
             + (if is_ProviderRequest e \<and> ProviderMeterCollector.qpsCounter p = None
                then 1 else 0)
       \<and> callbacks w'
           = callbacks w
             + (if is_ProviderRequest e \<and> ProviderMeterCollector.qpsCounter p = None
                   \<and> providerRequestQps p \<noteq> None
                then 1 else 0)"
proof (cases e)
  case (ProviderRequest now a)
  then show ?thesis using assms
    by (auto simp: providerRequest_eq addCallback_frame counterAdd_frame setInterval_def
        callbacks_timers split: option.splits)
next
  case (ProviderRequestSucceed a)
  then show ?thesis using assms by (auto simp: providerRequestSucceed_def counterAdd_frame)
next
  case (ProviderRequestFailed a)
  then show ?thesis using assms by (auto simp: providerRequestFailed_def counterAdd_frame)
next
  case ProviderShutdown
  then show ?thesis using assms
    by (auto simp: Provider_shutdown_eq Provider_qps_shutdown stop_def clearInterval_def
        callbacks_timers split: option.splits)
next
  case (ProviderGetCounter nm options)
  then have "getCounter B nm options p w = (fst (getCounter B nm options p w), p', w')"
    using assms by (cases "getCounter B nm options p w") simp
  from getCounter_resD[OF this] ProviderGetCounter show ?thesis by auto
next
  case (ProviderGetObservableCounter nm options)
  then have "getObservableCounter B nm options p w
               = (fst (getObservableCounter B nm options p w), p', w')"
    using assms by (cases "getObservableCounter B nm options p w") simp
  from getObservableCounter_resD[OF this] ProviderGetObservableCounter show ?thesis by auto
next
  case (ProviderTick now)
  then show ?thesis using assms by (auto split: option.splits)
qed

lemma provider_step_silent:
  assumes "provider_step B e (p, w) = (p', w')"
      and "meter p = None" and "providerRequestTotal p = None"
      and "providerRequestSucceedTotal p = None" and "providerRequestFailedTotal p = None"
      and "providerRequestQps p = None"
  shows "calls w' = calls w"
proof (cases e)
  case (ProviderRequest now a)
  then show ?thesis using assms
    by (auto simp: providerRequest_eq addCallback_def counterAdd_def setInterval_def
        split: option.splits)
next
  case (ProviderRequestSucceed a)
  then show ?thesis using assms by (auto simp: providerRequestSucceed_def counterAdd_def)
next
  case (ProviderRequestFailed a)
  then show ?thesis using assms by (auto simp: providerRequestFailed_def counterAdd_def)
next
  case ProviderShutdown
  then show ?thesis using assms
    by (auto simp: Provider_shutdown_eq stop_def clearInterval_def split: option.splits)
next
  case (ProviderGetCounter nm options)
  then show ?thesis using assms by (simp add: getCounter_unbound)
next
  case (ProviderGetObservableCounter nm options)
  then show ?thesis using assms by (simp add: getObservableCounter_unbound)
next
  case (ProviderTick now)
  then show ?thesis using assms by (auto split: option.splits)
qed

lemma provider_run_facts:
  assumes "provider_run B evs (p, w) = (p', w')"
  shows "meter p' = meter p \<and> providerRequestTotal p' = providerRequestTotal p
       \<and> providerRequestSucceedTotal p' = providerRequestSucceedTotal p
       \<and> providerRequestFailedTotal p' = providerRequestFailedTotal p
       \<and> providerRequestQps p' = providerRequestQps p
       \<and> (ProviderMeterCollector.qpsCounter p' = None)
           = (ProviderMeterCollector.qpsCounter p = None \<and> filter is_ProviderRequest evs = [])
       \<and> nextInterval w'
           = nextInterval w
             + (if filter is_ProviderRequest evs \<noteq> []
                   \<and> ProviderMeterCollector.qpsCounter p = None
                then 1 else 0)
       \<and> callbacks w'
           = callbacks w
             + (if filter is_ProviderRequest evs \<noteq> []
                   \<and> ProviderMeterCollector.qpsCounter p = None
                   \<and> providerRequestQps p \<noteq> None
                then 1 else 0)
       \<and> (meter p = None \<and> providerRequestTotal p = None
            \<and> providerRequestSucceedTotal p = None \<and> providerRequestFailedTotal p = None
            \<and> providerRequestQps p = None \<longrightarrow> calls w' = calls w)"
  using assms
proof (induction evs arbitrary: p w)
  case Nil
  then show ?case by (simp add: provider_run_Nil)
next
  case (Cons e evs)
  obtain p1 w1 where s1: "provider_step B e (p, w) = (p1, w1)"
    by (cases "provider_step B e (p, w)")
  have rest: "provider_run B evs (p1, w1) = (p', w')"
    using Cons.prems by (simp add: provider_run_Cons s1)
  note h = provider_step_handles[OF s1]
  note c = provider_step_counts[OF s1]
  note q = provider_step_silent[OF s1]
  note ih = Cons.IH[OF rest]
  show ?case
  proof (intro conjI)
    show "meter p' = meter p" using h ih by simp
    show "providerRequestTotal p' = providerRequestTotal p" using h ih by simp
    show "providerRequestSucceedTotal p' = providerRequestSucceedTotal p" using h ih by simp
    show "providerRequestFailedTotal p' = providerRequestFailedTotal p" using h ih by simp
    show "providerRequestQps p' = providerRequestQps p" using h ih by simp
    show "(ProviderMeterCollector.qpsCounter p' = None)
           = (ProviderMeterCollector.qpsCounter p = None
              \<and> filter is_ProviderRequest (e # evs) = [])"
      using c ih by auto
    show "nextInterval w'
           = nextInterval w
             + (if filter is_ProviderRequest (e # evs) \<noteq> []
                   \<and> ProviderMeterCollector.qpsCounter p = None
                then 1 else 0)"
      using c ih by auto
    show "callbacks w'
           = callbacks w
             + (if filter is_ProviderRequest (e # evs) \<noteq> []
                   \<and> ProviderMeterCollector.qpsCounter p = None
                   \<and> providerRequestQps p \<noteq> None
                then 1 else 0)"
      using c h ih by auto
    show "meter p = None \<and> providerRequestTotal p = None
            \<and> providerRequestSucceedTotal p = None \<and> providerRequestFailedTotal p = None
            \<and> providerRequestQps p = None \<longrightarrow> calls w' = calls w"
      using q h ih by auto
  qed
qed

subsection \<open>The consumer collector\<close>

lemma Consumer_new_facts:
  assumes "ConsumerMeterCollector_new B options w = (p, w')"
  shows "ConsumerMeterCollector.qpsCounter p = None
       \<and> (meter p = None \<longrightarrow>
            consumerRequestTotal p = None \<and> consumerRequestSucceedTotal p = None
          \<and> consumerRequestFailedTotal p = None \<and> consumerRequestQps p = None)
       \<and> nextInterval w' = nextInterval w \<and> callbacks w' = callbacks w"
  using assms
  by (auto simp: ConsumerMeterCollector_new_def MeterCollector_init_def Let_def
      split: prod.splits dest!: getCounter_resD getObservableCounter_resD ask_resD)

lemma consumerRequest_eq:
  "consumerRequest now a p w =
     (case ConsumerMeterCollector.qpsCounter p of
        None \<Rightarrow>
          (p\<lparr>ConsumerMeterCollector.qpsCounter :=
               Some (increment now \<lparr>counter = [], intervalId = nextInterval w\<rparr>)\<rparr>,
           addCallback (consumerRequestQps p) \<lparr>counter = [], intervalId = nextInterval w\<rparr>
             (snd (setInterval (counterAdd (consumerRequestTotal p) 1 a w))))
      | Some q \<Rightarrow>
          (p\<lparr>ConsumerMeterCollector.qpsCounter := Some (increment now q)\<rparr>,
           counterAdd (consumerRequestTotal p) 1 a w))"
  by (simp add: consumerRequest_def Let_def QpsCounter_new_def setInterval_def counterAdd_def
      split: option.splits)

lemma consumer_step_handles:
  assumes "consumer_step B e (p, w) = (p', w')"
  shows "meter p' = meter p \<and> consumerRequestTotal p' = consumerRequestTotal p
       \<and> consumerRequestSucceedTotal p' = consumerRequestSucceedTotal p
       \<and> consumerRequestFailedTotal p' = consumerRequestFailedTotal p
       \<and> consumerRequestQps p' = consumerRequestQps p"
proof (cases e)
  case (ConsumerRequest now a)
  then show ?thesis using assms
    by (auto simp: consumerRequest_eq split: option.splits)
next
  case (ConsumerRequestSucceed a)
  then show ?thesis using assms by (auto simp: consumerRequestSucceed_def)
next
  case (ConsumerRequestFailed a)
  then show ?thesis using assms by (auto simp: consumerRequestFailed_def)
next
  case ConsumerShutdown
  then show ?thesis using assms
    by (auto simp: Consumer_shutdown_eq shutdown_eq split: option.splits)
next
  case (ConsumerGetCounter nm options)
  then have "getCounter B nm options p w = (fst (getCounter B nm options p w), p', w')"
    using assms by (cases "getCounter B nm options p w") simp
  from getCounter_resD[OF this] show ?thesis by auto
next
  case (ConsumerGetObservableCounter nm options)
  then have "getObservableCounter B nm options p w
               = (fst (getObservableCounter B nm options p w), p', w')"
    using assms by (cases "getObservableCounter B nm options p w") simp
  from getObservableCounter_resD[OF this] show ?thesis by auto
next
  case (ConsumerTick now)
  then show ?thesis using assms by (auto split: option.splits)
qed

lemma consumer_step_counts:
  assumes "consumer_step B e (p, w) = (p', w')"
  shows "(ConsumerMeterCollector.qpsCounter p' = None)
           = (ConsumerMeterCollector.qpsCounter p = None \<and> \<not> is_ConsumerRequest e)
       \<and> nextInterval w'
           = nextInterval w
             + (if is_ConsumerRequest e \<and> ConsumerMeterCollector.qpsCounter p = None
                then 1 else 0)
       \<and> callbacks w'
           = callbacks w
             + (if is_ConsumerRequest e \<and> ConsumerMeterCollector.qpsCounter p = None
                   \<and> consumerRequestQps p \<noteq> None
                then 1 else 0)"
proof (cases e)
  case (ConsumerRequest now a)
  then show ?thesis using assms
    by (auto simp: consumerRequest_eq addCallback_frame counterAdd_frame setInterval_def
        callbacks_timers split: option.splits)
next
  case (ConsumerRequestSucceed a)
  then show ?thesis using assms by (auto simp: consumerRequestSucceed_def counterAdd_frame)
next
  case (ConsumerRequestFailed a)
  then show ?thesis using assms by (auto simp: consumerRequestFailed_def counterAdd_frame)
next
  case ConsumerShutdown
  then show ?thesis using assms
    by (auto simp: Consumer_shutdown_eq Consumer_qps_shutdown stop_def clearInterval_def
        callbacks_timers split: option.splits)
next
  case (ConsumerGetCounter nm options)
  then have "getCounter B nm options p w = (fst (getCounter B nm options p w), p', w')"
    using assms by (cases "getCounter B nm options p w") simp
  from getCounter_resD[OF this] ConsumerGetCounter show ?thesis by auto
next
  case (ConsumerGetObservableCounter nm options)
  then have "getObservableCounter B nm options p w
               = (fst (getObservableCounter B nm options p w), p', w')"
    using assms by (cases "getObservableCounter B nm options p w") simp
  from getObservableCounter_resD[OF this] ConsumerGetObservableCounter show ?thesis by auto
next
  case (ConsumerTick now)
  then show ?thesis using assms by (auto split: option.splits)
qed

lemma consumer_step_silent:
  assumes "consumer_step B e (p, w) = (p', w')"
      and "meter p = None" and "consumerRequestTotal p = None"
      and "consumerRequestSucceedTotal p = None" and "consumerRequestFailedTotal p = None"
      and "consumerRequestQps p = None"
  shows "calls w' = calls w"
proof (cases e)
  case (ConsumerRequest now a)
  then show ?thesis using assms
    by (auto simp: consumerRequest_eq addCallback_def counterAdd_def setInterval_def
        split: option.splits)
next
  case (ConsumerRequestSucceed a)
  then show ?thesis using assms by (auto simp: consumerRequestSucceed_def counterAdd_def)
next
  case (ConsumerRequestFailed a)
  then show ?thesis using assms by (auto simp: consumerRequestFailed_def counterAdd_def)
next
  case ConsumerShutdown
  then show ?thesis using assms
    by (auto simp: Consumer_shutdown_eq stop_def clearInterval_def split: option.splits)
next
  case (ConsumerGetCounter nm options)
  then show ?thesis using assms by (simp add: getCounter_unbound)
next
  case (ConsumerGetObservableCounter nm options)
  then show ?thesis using assms by (simp add: getObservableCounter_unbound)
next
  case (ConsumerTick now)
  then show ?thesis using assms by (auto split: option.splits)
qed

lemma consumer_run_facts:
  assumes "consumer_run B evs (p, w) = (p', w')"
  shows "meter p' = meter p \<and> consumerRequestTotal p' = consumerRequestTotal p
       \<and> consumerRequestSucceedTotal p' = consumerRequestSucceedTotal p
       \<and> consumerRequestFailedTotal p' = consumerRequestFailedTotal p
       \<and> consumerRequestQps p' = consumerRequestQps p
       \<and> (ConsumerMeterCollector.qpsCounter p' = None)
           = (ConsumerMeterCollector.qpsCounter p = None \<and> filter is_ConsumerRequest evs = [])
       \<and> nextInterval w'
           = nextInterval w
             + (if filter is_ConsumerRequest evs \<noteq> []
                   \<and> ConsumerMeterCollector.qpsCounter p = None
                then 1 else 0)
       \<and> callbacks w'
           = callbacks w
             + (if filter is_ConsumerRequest evs \<noteq> []
                   \<and> ConsumerMeterCollector.qpsCounter p = None
                   \<and> consumerRequestQps p \<noteq> None
                then 1 else 0)
       \<and> (meter p = None \<and> consumerRequestTotal p = None
            \<and> consumerRequestSucceedTotal p = None \<and> consumerRequestFailedTotal p = None
            \<and> consumerRequestQps p = None \<longrightarrow> calls w' = calls w)"
  using assms
proof (induction evs arbitrary: p w)
  case Nil
  then show ?case by (simp add: consumer_run_Nil)
next
  case (Cons e evs)
  obtain p1 w1 where s1: "consumer_step B e (p, w) = (p1, w1)"
    by (cases "consumer_step B e (p, w)")
  have rest: "consumer_run B evs (p1, w1) = (p', w')"
    using Cons.prems by (simp add: consumer_run_Cons s1)
  note h = consumer_step_handles[OF s1]
  note c = consumer_step_counts[OF s1]
  note q = consumer_step_silent[OF s1]
  note ih = Cons.IH[OF rest]
  show ?case
  proof (intro conjI)
    show "meter p' = meter p" using h ih by simp
    show "consumerRequestTotal p' = consumerRequestTotal p" using h ih by simp
    show "consumerRequestSucceedTotal p' = consumerRequestSucceedTotal p" using h ih by simp
    show "consumerRequestFailedTotal p' = consumerRequestFailedTotal p" using h ih by simp
    show "consumerRequestQps p' = consumerRequestQps p" using h ih by simp
    show "(ConsumerMeterCollector.qpsCounter p' = None)
           = (ConsumerMeterCollector.qpsCounter p = None
              \<and> filter is_ConsumerRequest (e # evs) = [])"
      using c ih by auto
    show "nextInterval w'
           = nextInterval w
             + (if filter is_ConsumerRequest (e # evs) \<noteq> []
                   \<and> ConsumerMeterCollector.qpsCounter p = None
                then 1 else 0)"
      using c ih by auto
    show "callbacks w'
           = callbacks w
             + (if filter is_ConsumerRequest (e # evs) \<noteq> []
                   \<and> ConsumerMeterCollector.qpsCounter p = None
                   \<and> consumerRequestQps p \<noteq> None
                then 1 else 0)"
      using c h ih by auto
    show "meter p = None \<and> consumerRequestTotal p = None
            \<and> consumerRequestSucceedTotal p = None \<and> consumerRequestFailedTotal p = None
            \<and> consumerRequestQps p = None \<longrightarrow> calls w' = calls w"
      using q h ih by auto
  qed
qed

subsection \<open>A backend that binds no meter\<close>

lemma QpsCounter_new_eq:
  "QpsCounter_new w
     = (\<lparr>counter = [], intervalId = nextInterval w\<rparr>,
        w\<lparr>intervals := nextInterval w # intervals w, nextInterval := Suc (nextInterval w)\<rparr>)"
  by (simp add: QpsCounter_new_def setInterval_def)

text \<open>
  Claim C2, as the code has it. Take a provider or consumer collector whose
  constructor got no meter, in any state it can reach. Both getters return
  \<open>undefined\<close> and change nothing. The succeed and failed methods change nothing.
  The request method calls nothing on the metrics API, as no method has since the
  constructor, but it is not a no-op: the first call constructs the QpsCounter,
  which schedules its interval, and every call increments it.
\<close>

theorem C2_unavailable_backend:
  assumes newP: "ProviderMeterCollector_new B options w0 = (p0, w1)"
      and unbP: "meter p0 = None"
      and runP: "provider_run B evs (p0, w1) = (p, w)"
      and newU: "ConsumerMeterCollector_new B options' v0 = (u0, v1)"
      and unbU: "meter u0 = None"
      and runU: "consumer_run B evs' (u0, v1) = (u, v)"
  shows "getCounter B nm mo p w = (None, p, w)
       \<and> getObservableCounter B nm mo p w = (None, p, w)
       \<and> providerRequestSucceed a p w = (p, w)
       \<and> providerRequestFailed a p w = (p, w)
       \<and> providerRequest now a p w
           = (case ProviderMeterCollector.qpsCounter p of
                None \<Rightarrow>
                  (p\<lparr>ProviderMeterCollector.qpsCounter :=
                       Some (increment now (fst (QpsCounter_new w)))\<rparr>,
                   snd (QpsCounter_new w))
              | Some q \<Rightarrow> (p\<lparr>ProviderMeterCollector.qpsCounter := Some (increment now q)\<rparr>, w))
       \<and> calls (snd (providerRequest now a p w)) = calls w
       \<and> calls w = calls w1
       \<and> getCounter B nm mo u v = (None, u, v)
       \<and> getObservableCounter B nm mo u v = (None, u, v)
       \<and> consumerRequestSucceed a u v = (u, v)
       \<and> consumerRequestFailed a u v = (u, v)
       \<and> consumerRequest now a u v
           = (case ConsumerMeterCollector.qpsCounter u of
                None \<Rightarrow>
                  (u\<lparr>ConsumerMeterCollector.qpsCounter :=
                       Some (increment now (fst (QpsCounter_new v)))\<rparr>,
                   snd (QpsCounter_new v))
              | Some q \<Rightarrow> (u\<lparr>ConsumerMeterCollector.qpsCounter := Some (increment now q)\<rparr>, v))
       \<and> calls (snd (consumerRequest now a u v)) = calls v
       \<and> calls v = calls v1"
proof -
  have p0: "providerRequestTotal p0 = None \<and> providerRequestSucceedTotal p0 = None
          \<and> providerRequestFailedTotal p0 = None \<and> providerRequestQps p0 = None"
    using Provider_new_facts[OF newP] unbP by simp
  have p: "meter p = None \<and> providerRequestTotal p = None
         \<and> providerRequestSucceedTotal p = None \<and> providerRequestFailedTotal p = None
         \<and> providerRequestQps p = None \<and> calls w = calls w1"
    using provider_run_facts[OF runP] p0 unbP by simp
  have u0: "consumerRequestTotal u0 = None \<and> consumerRequestSucceedTotal u0 = None
          \<and> consumerRequestFailedTotal u0 = None \<and> consumerRequestQps u0 = None"
    using Consumer_new_facts[OF newU] unbU by simp
  have u: "meter u = None \<and> consumerRequestTotal u = None
         \<and> consumerRequestSucceedTotal u = None \<and> consumerRequestFailedTotal u = None
         \<and> consumerRequestQps u = None \<and> calls v = calls v1"
    using consumer_run_facts[OF runU] u0 unbU by simp
  have P: "getCounter B nm mo p w = (None, p, w)
       \<and> getObservableCounter B nm mo p w = (None, p, w)
       \<and> providerRequestSucceed a p w = (p, w)
       \<and> providerRequestFailed a p w = (p, w)"
    using p
    by (simp add: getCounter_unbound getObservableCounter_unbound providerRequestSucceed_def
        providerRequestFailed_def counterAdd_def)
  have PR: "providerRequest now a p w
           = (case ProviderMeterCollector.qpsCounter p of
                None \<Rightarrow>
                  (p\<lparr>ProviderMeterCollector.qpsCounter :=
                       Some (increment now (fst (QpsCounter_new w)))\<rparr>,
                   snd (QpsCounter_new w))
              | Some q \<Rightarrow> (p\<lparr>ProviderMeterCollector.qpsCounter := Some (increment now q)\<rparr>, w))"
    using p
    by (simp add: providerRequest_eq QpsCounter_new_eq counterAdd_def addCallback_def
        setInterval_def split: option.splits)
  have PC: "calls (snd (providerRequest now a p w)) = calls w"
    by (simp add: PR QpsCounter_new_eq split: option.splits)
  have U: "getCounter B nm mo u v = (None, u, v)
       \<and> getObservableCounter B nm mo u v = (None, u, v)
       \<and> consumerRequestSucceed a u v = (u, v)
       \<and> consumerRequestFailed a u v = (u, v)"
    using u
    by (simp add: getCounter_unbound getObservableCounter_unbound consumerRequestSucceed_def
        consumerRequestFailed_def counterAdd_def)
  have UR: "consumerRequest now a u v
           = (case ConsumerMeterCollector.qpsCounter u of
                None \<Rightarrow>
                  (u\<lparr>ConsumerMeterCollector.qpsCounter :=
                       Some (increment now (fst (QpsCounter_new v)))\<rparr>,
                   snd (QpsCounter_new v))
              | Some q \<Rightarrow> (u\<lparr>ConsumerMeterCollector.qpsCounter := Some (increment now q)\<rparr>, v))"
    using u
    by (simp add: consumerRequest_eq QpsCounter_new_eq counterAdd_def addCallback_def
        setInterval_def split: option.splits)
  have UC: "calls (snd (consumerRequest now a u v)) = calls v"
    by (simp add: UR QpsCounter_new_eq split: option.splits)
  show ?thesis
    using P PR PC U UR UC p u by simp
qed

lemma Provider_new_none:
  "ProviderMeterCollector_new backend_none None world0
     = (\<lparr>meter = None, meter_cache = Some [],
         providerRequestTotal = None, providerRequestSucceedTotal = None,
         providerRequestFailedTotal = None, providerRequestQps = None,
         ProviderMeterCollector.qpsCounter = None\<rparr>,
        \<lparr>calls = [GetMeter ''dubbo-js'' ''0.0.1''], intervals = [], nextInterval = 0\<rparr>)"
  by (simp add: ProviderMeterCollector_new_def MeterCollector_init_def ask_def backend_none_def
      world0_def orDefault_def getCounter_unbound getObservableCounter_unbound)

lemma Consumer_new_none:
  "ConsumerMeterCollector_new backend_none None world0
     = (\<lparr>meter = None, meter_cache = Some [],
         consumerRequestTotal = None, consumerRequestSucceedTotal = None,
         consumerRequestFailedTotal = None, consumerRequestQps = None,
         ConsumerMeterCollector.qpsCounter = None\<rparr>,
        \<lparr>calls = [GetMeter ''dubbo-js'' ''0.0.1''], intervals = [], nextInterval = 0\<rparr>)"
  by (simp add: ConsumerMeterCollector_new_def MeterCollector_init_def ask_def backend_none_def
      world0_def orDefault_def getCounter_unbound getObservableCounter_unbound)

theorem C2_unavailable_backend_witness:
  "providerRequestSucceed None
     (fst (provider_run backend_none [ProviderRequestFailed None]
             (ProviderMeterCollector_new backend_none None world0)))
     (snd (provider_run backend_none [ProviderRequestFailed None]
             (ProviderMeterCollector_new backend_none None world0)))
     = provider_run backend_none [ProviderRequestFailed None]
         (ProviderMeterCollector_new backend_none None world0)
 \<and> calls (snd (consumerRequest 700 None
     (fst (consumer_run backend_none [ConsumerRequest 500 None]
             (ConsumerMeterCollector_new backend_none None world0)))
     (snd (consumer_run backend_none [ConsumerRequest 500 None]
             (ConsumerMeterCollector_new backend_none None world0)))))
     = [GetMeter ''dubbo-js'' ''0.0.1'']"
proof -
  obtain p0 w1 where newP: "ProviderMeterCollector_new backend_none None world0 = (p0, w1)"
    by (cases "ProviderMeterCollector_new backend_none None world0")
  obtain u0 v1 where newU: "ConsumerMeterCollector_new backend_none None world0 = (u0, v1)"
    by (cases "ConsumerMeterCollector_new backend_none None world0")
  have unbP: "meter p0 = None" using newP by (auto simp: Provider_new_none)
  have unbU: "meter u0 = None" using newU by (auto simp: Consumer_new_none)
  have v1: "calls v1 = [GetMeter ''dubbo-js'' ''0.0.1'']"
    using newU by (auto simp: Consumer_new_none)
  obtain p w where runP: "provider_run backend_none [ProviderRequestFailed None] (p0, w1) = (p, w)"
    by (cases "provider_run backend_none [ProviderRequestFailed None] (p0, w1)")
  obtain u v where runU: "consumer_run backend_none [ConsumerRequest 500 None] (u0, v1) = (u, v)"
    by (cases "consumer_run backend_none [ConsumerRequest 500 None] (u0, v1)")
  note all = C2_unavailable_backend[OF newP unbP runP newU unbU runU,
        where nm = "''x''" and mo = None and a = None and now = 700]
  from all have a: "providerRequestSucceed None p w = (p, w)" by blast
  from all have b: "calls (snd (consumerRequest 700 None u v)) = calls v" by blast
  from all have c: "calls v = calls v1" by blast
  show ?thesis
    using a b c by (simp add: newP newU runP runU v1)
qed

text \<open>
  As C2 is worded, \<open>providerRequest\<close> would change no state when no meter is
  bound. On a provider collector built by a metrics API that binds no meter, the
  first \<open>providerRequest\<close> at 500 ms leaves a QpsCounter with one request in the
  bucket of second 0 where there was none, and its interval scheduled where no
  interval was.
\<close>

theorem C2_unavailable_backend_counterexample:
  "meter (fst (ProviderMeterCollector_new backend_none None world0)) = None
 \<and> ProviderMeterCollector.qpsCounter (fst (ProviderMeterCollector_new backend_none None world0))
     = None
 \<and> intervals (snd (ProviderMeterCollector_new backend_none None world0)) = []
 \<and> ProviderMeterCollector.qpsCounter
       (fst (providerRequest 500 None
               (fst (ProviderMeterCollector_new backend_none None world0))
               (snd (ProviderMeterCollector_new backend_none None world0))))
     = Some \<lparr>counter = [(0, 1)], intervalId = 0\<rparr>
 \<and> intervals
       (snd (providerRequest 500 None
               (fst (ProviderMeterCollector_new backend_none None world0))
               (snd (ProviderMeterCollector_new backend_none None world0))))
     = [0]"
  by (simp add: Provider_new_none providerRequest_eq counterAdd_def addCallback_def
      setInterval_def increment_def currentSecond_def)

subsection \<open>One QpsCounter for each collector\<close>

text \<open>
  Claim C6, as the code has it. \<open>nextInterval\<close> counts the intervals ever set, and
  only the constructor of QpsCounter sets one, so it counts the QpsCounters
  constructed; \<open>callbacks\<close> counts the \<open>addCallback\<close> calls the metrics API
  received. For a provider or consumer collector from its constructor on, through
  any calls of its methods: the constructor constructs no QpsCounter and registers
  no callback; when the request method was never called the collector holds no
  QpsCounter, none was constructed, no callback was registered and a poll observes
  nothing; when it was called, however often, exactly one QpsCounter was
  constructed, and the callback was registered exactly once if the collector holds
  a qps handle and never if it holds none.
\<close>

theorem C6_single_QpsCounter:
  assumes newP: "ProviderMeterCollector_new B options w0 = (p0, w1)"
      and runP: "provider_run B evs (p0, w1) = (p, w)"
      and newU: "ConsumerMeterCollector_new B options' v0 = (u0, v1)"
      and runU: "consumer_run B evs' (u0, v1) = (u, v)"
  shows "nextInterval w
           = nextInterval w0 + (if filter is_ProviderRequest evs = [] then 0 else 1)
       \<and> callbacks w
           = callbacks w0
             + (if filter is_ProviderRequest evs = [] \<or> providerRequestQps p0 = None
                then 0 else 1)
       \<and> (ProviderMeterCollector.qpsCounter p = None) = (filter is_ProviderRequest evs = [])
       \<and> (filter is_ProviderRequest evs = [] \<longrightarrow> providerObserved now p w = [])
       \<and> nextInterval v
           = nextInterval v0 + (if filter is_ConsumerRequest evs' = [] then 0 else 1)
       \<and> callbacks v
           = callbacks v0
             + (if filter is_ConsumerRequest evs' = [] \<or> consumerRequestQps u0 = None
                then 0 else 1)
       \<and> (ConsumerMeterCollector.qpsCounter u = None) = (filter is_ConsumerRequest evs' = [])
       \<and> (filter is_ConsumerRequest evs' = [] \<longrightarrow> consumerObserved now u v = [])"
proof -
  note p0 = Provider_new_facts[OF newP]
  note u0 = Consumer_new_facts[OF newU]
  note p = provider_run_facts[OF runP]
  note u = consumer_run_facts[OF runU]
  have P1: "nextInterval w
           = nextInterval w0 + (if filter is_ProviderRequest evs = [] then 0 else 1)"
    using p0 p by simp
  have P2: "callbacks w
           = callbacks w0
             + (if filter is_ProviderRequest evs = [] \<or> providerRequestQps p0 = None
                then 0 else 1)"
    using p0 p by simp
  have P3: "(ProviderMeterCollector.qpsCounter p = None) = (filter is_ProviderRequest evs = [])"
    using p0 p by simp
  have P4: "filter is_ProviderRequest evs = [] \<longrightarrow> providerObserved now p w = []"
    using P3 by (auto simp: providerObserved_def)
  have U1: "nextInterval v
           = nextInterval v0 + (if filter is_ConsumerRequest evs' = [] then 0 else 1)"
    using u0 u by simp
  have U2: "callbacks v
           = callbacks v0
             + (if filter is_ConsumerRequest evs' = [] \<or> consumerRequestQps u0 = None
                then 0 else 1)"
    using u0 u by simp
  have U3: "(ConsumerMeterCollector.qpsCounter u = None) = (filter is_ConsumerRequest evs' = [])"
    using u0 u by simp
  have U4: "filter is_ConsumerRequest evs' = [] \<longrightarrow> consumerObserved now u v = []"
    using U3 by (auto simp: consumerObserved_def)
  show ?thesis
    using P1 P2 P3 P4 U1 U2 U3 U4 by blast
qed

lemma Provider_new_fresh:
  "ProviderMeterCollector_new backend_fresh None world0
     = (\<lparr>meter = Some 1,
         meter_cache = Some
           [(''counter-dubbo_provider_requests_total'', 2),
            (''counter-dubbo_provider_requests_succeed_total'', 3),
            (''counter-dubbo_provider_requests_failed_total'', 4),
            (''observable-counter-dubbo_provider_qps_total'', 5)],
         providerRequestTotal = Some 2, providerRequestSucceedTotal = Some 3,
         providerRequestFailedTotal = Some 4, providerRequestQps = Some 5,
         ProviderMeterCollector.qpsCounter = None\<rparr>,
        \<lparr>calls =
           [GetMeter ''dubbo-js'' ''0.0.1'',
            CreateCounter 1 ''dubbo_provider_requests_total''
              (Some \<lparr>description = ''The total number of received requests by the provider'',
                     valueType = ValueType_INT\<rparr>),
            CreateCounter 1 ''dubbo_provider_requests_succeed_total''
              (Some \<lparr>description =
                       ''The total number of successfully received requests by the provider'',
                     valueType = ValueType_INT\<rparr>),
            CreateCounter 1 ''dubbo_provider_requests_failed_total''
              (Some \<lparr>description =
                       ''The total number of unsuccessfully received requests by the provider'',
                     valueType = ValueType_INT\<rparr>),
            CreateObservableCounter 1 ''dubbo_provider_qps_total''
              (Some \<lparr>description =
                       ''The number of requests received by the provider per second'',
                     valueType = ValueType_INT\<rparr>)],
         intervals = [], nextInterval = 0\<rparr>)"
  by (simp add: ProviderMeterCollector_new_def MeterCollector_init_def getter_defs
      backend_fresh_def world0_def orDefault_def)

theorem C6_single_QpsCounter_witness:
  "nextInterval (snd (provider_run backend_fresh
       [ProviderRequest 500 None, ProviderRequestSucceed None, ProviderRequest 1600 None]
       (ProviderMeterCollector_new backend_fresh None world0))) = 1
 \<and> callbacks (snd (provider_run backend_fresh
       [ProviderRequest 500 None, ProviderRequestSucceed None, ProviderRequest 1600 None]
       (ProviderMeterCollector_new backend_fresh None world0))) = 1
 \<and> consumerObserved 2000
       (fst (consumer_run backend_fresh [ConsumerRequestSucceed None]
               (ConsumerMeterCollector_new backend_fresh None world0)))
       (snd (consumer_run backend_fresh [ConsumerRequestSucceed None]
               (ConsumerMeterCollector_new backend_fresh None world0))) = []"
proof -
  let ?evs = "[ProviderRequest 500 None, ProviderRequestSucceed None, ProviderRequest 1600 None]"
  obtain p0 w1 where newP: "ProviderMeterCollector_new backend_fresh None world0 = (p0, w1)"
    by (cases "ProviderMeterCollector_new backend_fresh None world0")
  obtain u0 v1 where newU: "ConsumerMeterCollector_new backend_fresh None world0 = (u0, v1)"
    by (cases "ConsumerMeterCollector_new backend_fresh None world0")
  obtain p w where runP: "provider_run backend_fresh ?evs (p0, w1) = (p, w)"
    by (cases "provider_run backend_fresh ?evs (p0, w1)")
  obtain u v where runU: "consumer_run backend_fresh [ConsumerRequestSucceed None] (u0, v1) = (u, v)"
    by (cases "consumer_run backend_fresh [ConsumerRequestSucceed None] (u0, v1)")
  have h: "providerRequestQps p0 = Some 5" using newP by (auto simp: Provider_new_fresh)
  note all = C6_single_QpsCounter[OF newP runP newU runU, where now = 2000]
  from all have a: "nextInterval w = 1" by (simp add: world0_def)
  from all h have b: "callbacks w = 1" by (simp add: world0_def callbacks_def)
  from all have c: "consumerObserved 2000 u v = []" by simp
  show ?thesis
    using a b c by (simp add: newP newU runP runU)
qed

text \<open>
  As C6 is worded, the callback would be registered exactly once on every
  collector. A provider collector built by a metrics API that binds no meter holds
  no qps handle: after two requests one QpsCounter was constructed, and no
  callback was ever registered.
\<close>

theorem C6_single_QpsCounter_counterexample:
  "nextInterval (snd (provider_run backend_none
       [ProviderRequest 500 None, ProviderRequest 600 None]
       (ProviderMeterCollector_new backend_none None world0))) = 1
 \<and> callbacks (snd (provider_run backend_none
       [ProviderRequest 500 None, ProviderRequest 600 None]
       (ProviderMeterCollector_new backend_none None world0))) = 0"
  by (simp add: provider_run_def Provider_new_none providerRequest_eq counterAdd_def
      addCallback_def setInterval_def callbacks_def)

section \<open>Properties of validateOpenTelemetryOption\<close>

text \<open>
  What the function returns, key by key. Under \<open>serviceName\<close>: the caller's own
  property when the configuration has one, whatever it holds; else the inherited
  one when it is not nullish; else \<open>"Dubbo"\<close>. Under every other key: the caller's
  own property.
\<close>

lemma validateOpenTelemetryOption_serviceName:
  "validateOpenTelemetryOption options ''serviceName''
     = (case (case options of None \<Rightarrow> None | Some opts \<Rightarrow> configuration opts) of
          None \<Rightarrow> Some (Str ''Dubbo'')
        | Some cfg \<Rightarrow>
            (case own cfg ''serviceName'' of
               Some v \<Rightarrow> Some v
             | None \<Rightarrow>
                 (case inherited cfg ''serviceName'' of
                    None \<Rightarrow> Some (Str ''Dubbo'')
                  | Some v \<Rightarrow> Some (nullish v (Str ''Dubbo'')))))"
  by (auto simp: validateOpenTelemetryOption_def getProp_def nullish_def map_add_def Let_def
      split: option.splits)

lemma validateOpenTelemetryOption_other:
  "k \<noteq> ''serviceName'' \<Longrightarrow>
   validateOpenTelemetryOption options k
     = (case (case options of None \<Rightarrow> None | Some opts \<Rightarrow> configuration opts) of
          None \<Rightarrow> None
        | Some cfg \<Rightarrow> own cfg k)"
  by (auto simp: validateOpenTelemetryOption_def map_add_def Let_def split: option.splits)

text \<open>
  Claim C9 at the input where the code departs from it. The caller passes a
  configuration whose \<open>serviceName\<close> holds \<open>undefined\<close> (or \<open>null\<close>), so supplies
  no service name: the \<open>??\<close> picks \<open>"Dubbo"\<close>, and the spread that follows
  overwrites it with the caller's \<open>undefined\<close> (or \<open>null\<close>). The service name of
  the result is not \<open>"Dubbo"\<close>. With the key absent it is \<open>"Dubbo"\<close>, and a name
  the caller gives is kept, as are the other entries.
\<close>

theorem C9_serviceName_nullish:
  "validateOpenTelemetryOption
     (Some \<lparr>enable = None,
            configuration = Some \<lparr>own = [''serviceName'' \<mapsto> Undefined], inherited = Map.empty\<rparr>\<rparr>)
     ''serviceName'' = Some Undefined
 \<and> validateOpenTelemetryOption
     (Some \<lparr>enable = None,
            configuration = Some \<lparr>own = [''serviceName'' \<mapsto> Null], inherited = Map.empty\<rparr>\<rparr>)
     ''serviceName'' = Some Null
 \<and> validateOpenTelemetryOption
     (Some \<lparr>enable = None,
            configuration = Some \<lparr>own = [''autoDetectResources'' \<mapsto> Other 1],
                                   inherited = Map.empty\<rparr>\<rparr>)
     ''serviceName'' = Some (Str ''Dubbo'')
 \<and> validateOpenTelemetryOption
     (Some \<lparr>enable = None,
            configuration = Some \<lparr>own = [''serviceName'' \<mapsto> Str ''orders'',
                                          ''autoDetectResources'' \<mapsto> Other 1],
                                   inherited = Map.empty\<rparr>\<rparr>)
     ''serviceName'' = Some (Str ''orders'')
 \<and> validateOpenTelemetryOption
     (Some \<lparr>enable = None,
            configuration = Some \<lparr>own = [''serviceName'' \<mapsto> Str ''orders'',
                                          ''autoDetectResources'' \<mapsto> Other 1],
                                   inherited = Map.empty\<rparr>\<rparr>)
     ''autoDetectResources'' = Some (Other 1)
 \<and> validateOpenTelemetryOption None ''serviceName'' = Some (Str ''Dubbo'')"
  by (simp add: validateOpenTelemetryOption_serviceName validateOpenTelemetryOption_other)

end
